theory Spec2Isabelle
  imports Complex_Main "HOL-Library.Char_ord" "HOL-Library.List_Lexorder"
begin

section \<open>Strings and paths\<close>

text \<open>
  The scripts use \<^verbatim>\<open>str.lower\<close>, \<^verbatim>\<open>list.index\<close> and the \<^verbatim>\<open>os.path\<close> functions
  \<^verbatim>\<open>splitext\<close>, \<^verbatim>\<open>basename\<close> and \<^verbatim>\<open>join\<close>. They are modelled as the POSIX versions
  of the Python library compute them (separator \<^verbatim>\<open>/\<close>), on byte strings.
\<close>

definition lower_char :: "char \<Rightarrow> char" where
  "lower_char c =
     (let n = (of_char c :: nat) in if 65 \<le> n \<and> n \<le> 90 then char_of (n + 32) else c)"

definition lower :: "string \<Rightarrow> string" where
  "lower s = map lower_char s"

definition startswith :: "string \<Rightarrow> string \<Rightarrow> bool" where
  "startswith s p = (take (length p) s = p)"

definition endswith :: "string \<Rightarrow> string \<Rightarrow> bool" where
  "endswith s p = (drop (length s - length p) s = p \<and> length p \<le> length s)"

text \<open>\<^verbatim>\<open>os.path.basename\<close>: everything after the last separator.\<close>

definition basename :: "string \<Rightarrow> string" where
  "basename p = rev (takeWhile (\<lambda>c. c \<noteq> CHR ''/'') (rev p))"

text \<open>
  \<^verbatim>\<open>os.path.splitext\<close>: the extension starts at the last dot of the last path component,
  unless that component has nothing but dots in front of it.
\<close>

definition splitext :: "string \<Rightarrow> string \<times> string" where
  "splitext p =
     (let base = basename p;
          tail = rev (takeWhile (\<lambda>c. c \<noteq> CHR ''.'') (rev base))
      in if length tail = length base then (p, [])
         else let ext = CHR ''.'' # tail;
                  stem = take (length base - length ext) base
              in if list_ex (\<lambda>c. c \<noteq> CHR ''.'') stem
                 then (take (length p - length ext) p, ext)
                 else (p, []))"

text \<open>\<^verbatim>\<open>os.path.join\<close> of two components.\<close>

definition path_join :: "string \<Rightarrow> string \<Rightarrow> string" where
  "path_join a b =
     (if startswith b ''/'' then b
      else if a = [] \<or> endswith a ''/'' then a @ b
      else a @ ''/'' @ b)"

text \<open>\<^verbatim>\<open>list.index\<close>: the position of the first occurrence; \<open>None\<close> stands for ValueError.\<close>

fun index_of :: "'a \<Rightarrow> 'a list \<Rightarrow> nat option" where
  "index_of x [] = None"
| "index_of x (y # ys) = (if x = y then Some 0 else map_option Suc (index_of x ys))"

section \<open>Vectors and matrices\<close>

text \<open>
  Points, directions and scales are triples of numbers and a matrix is three rows.
  Floating-point numbers are modelled as reals.
\<close>

type_synonym vec3 = "real \<times> real \<times> real"

type_synonym mat3 = "vec3 \<times> vec3 \<times> vec3"

definition vzero :: vec3 where
  "vzero = (0, 0, 0)"

definition vones :: vec3 where
  "vones = (1, 1, 1)"

definition mat_id :: mat3 where
  "mat_id = ((1, 0, 0), (0, 1, 0), (0, 0, 1))"

fun vadd :: "vec3 \<Rightarrow> vec3 \<Rightarrow> vec3" where
  "vadd (a, b, c) (x, y, z) = (a + x, b + y, c + z)"

fun vsub :: "vec3 \<Rightarrow> vec3 \<Rightarrow> vec3" where
  "vsub (a, b, c) (x, y, z) = (a - x, b - y, c - z)"

fun smul :: "real \<Rightarrow> vec3 \<Rightarrow> vec3" where
  "smul k (x, y, z) = (k * x, k * y, k * z)"

fun vmul :: "vec3 \<Rightarrow> vec3 \<Rightarrow> vec3" where
  "vmul (a, b, c) (x, y, z) = (a * x, b * y, c * z)"

fun vdiv :: "vec3 \<Rightarrow> real \<Rightarrow> vec3" where
  "vdiv (x, y, z) k = (x / k, y / k, z / k)"

fun dot :: "vec3 \<Rightarrow> vec3 \<Rightarrow> real" where
  "dot (a, b, c) (x, y, z) = a * x + b * y + c * z"

fun mat_vec :: "mat3 \<Rightarrow> vec3 \<Rightarrow> vec3" where
  "mat_vec (r1, r2, r3) v = (dot r1 v, dot r2 v, dot r3 v)"

definition diag :: "vec3 \<Rightarrow> mat3" where
  "diag v = (case v of (x, y, z) \<Rightarrow> ((x, 0, 0), (0, y, 0), (0, 0, z)))"

definition col :: "mat3 \<Rightarrow> nat \<Rightarrow> vec3" where
  "col m j =
     (case m of ((a, b, c), (d, e, f), (g, h, i)) \<Rightarrow>
        if j = 0 then (a, d, g) else if j = 1 then (b, e, h) else (c, f, i))"

definition mat_mul :: "mat3 \<Rightarrow> mat3 \<Rightarrow> mat3" where
  "mat_mul m n =
     (case m of (r1, r2, r3) \<Rightarrow>
        ((dot r1 (col n 0), dot r1 (col n 1), dot r1 (col n 2)),
         (dot r2 (col n 0), dot r2 (col n 1), dot r2 (col n 2)),
         (dot r3 (col n 0), dot r3 (col n 1), dot r3 (col n 2))))"

definition det3 :: "mat3 \<Rightarrow> real" where
  "det3 m =
     (case m of ((a, b, c), (d, e, f), (g, h, i)) \<Rightarrow>
        a * (e * i - f * h) - b * (d * i - f * g) + c * (d * h - e * g))"

text \<open>
  The inverse by cofactors. For a singular matrix the division by the zero determinant
  yields the zero matrix; what the host leaves there is outside the model.
\<close>

definition mat_inv :: "mat3 \<Rightarrow> mat3" where
  "mat_inv m =
     (case m of ((a, b, c), (d, e, f), (g, h, i)) \<Rightarrow>
        let k = det3 m
        in (((e * i - f * h) / k, (c * h - b * i) / k, (b * f - c * e) / k),
            ((f * g - d * i) / k, (a * i - c * g) / k, (c * d - a * f) / k),
            ((d * h - e * g) / k, (b * g - a * h) / k, (a * e - b * d) / k)))"

section \<open>Numbers and their text\<close>

text \<open>\<^verbatim>\<open>math.radians\<close>.\<close>

definition radians :: "real \<Rightarrow> real" where
  "radians d = d * pi / 180"

text \<open>
  Decimal text of integers: \<^verbatim>\<open>str\<close> of a natural number and the format \<^verbatim>\<open>03d\<close>, which
  pads with zeros to width three and counts a minus sign in the width.
\<close>

definition digit_char :: "nat \<Rightarrow> char" where
  "digit_char d = char_of (48 + d)"

fun str_nat :: "nat \<Rightarrow> string" where
  "str_nat n = (if n < 10 then [digit_char n] else str_nat (n div 10) @ [digit_char (n mod 10)])"

definition zfill :: "nat \<Rightarrow> string \<Rightarrow> string" where
  "zfill w ds = replicate (w - length ds) CHR ''0'' @ ds"

definition format_03d :: "int \<Rightarrow> string" where
  "format_03d n =
     (if n < 0 then CHR ''-'' # zfill 2 (str_nat (nat (- n))) else zfill 3 (str_nat (nat n)))"

text \<open>
  \<^verbatim>\<open>range(start, stop, step)\<close> for a step that is not zero, with the length the
  interpreter computes; a zero step is the caller's ValueError.
\<close>

definition py_range :: "int \<Rightarrow> int \<Rightarrow> int \<Rightarrow> int list" where
  "py_range start stop step =
     (if step > 0 then
        map (\<lambda>k. start + int k * step) [0..<nat ((stop - start + step - 1) div step)]
      else if step < 0 then
        map (\<lambda>k. start + int k * step) [0..<nat ((start - stop - step - 1) div (- step))]
      else [])"

section \<open>The host scene\<close>

text \<open>
  The rendering script drives a host application through its scripting interface. The
  host's scene is modelled as an explicit state that every procedure takes and returns:
  the objects linked to the scene, the active object, the scene camera, the render output
  path, the paths that exist on disk, and the trace of host operator calls and console
  messages.

  An object has its own location, rotation and scale, which are relative to its parent.
  The field \<open>parent\<close> is the transform the object inherits through its parent chain (the
  world matrix of the parent together with the parent-inverse correction the host keeps),
  as a linear part and an offset; it is \<open>None\<close> for an object without a parent. The script
  never assigns a parent, and the model keeps the inherited transform as data of the child:
  this covers a parent that the operators of the script leave alone, such as an empty or an
  object outside the selection. How a parent that is itself baked or joined away carries
  its children along is not modelled.
\<close>

datatype obj_type = MESH | LIGHT | CAMERA | EMPTY

record object =
  ident :: nat
  name :: string
  otype :: obj_type
  location :: vec3
  rotation :: mat3
  scale :: vec3
  verts :: "vec3 list"
  selected :: bool
  energy :: real
  parent :: "(mat3 \<times> vec3) option"

datatype error =
    FileNotFoundError string
  | ValueError string
  | IndexError
  | KeyError string
  | ReferenceError

datatype message =
    Msg_import_ok string
  | Msg_no_mesh
  | Msg_original_dims vec3
  | Msg_zero_size
  | Msg_new_dims vec3
  | Msg_scale_factor real
  | Msg_angle_done int string
  | Msg_saved string
  | Msg_multiple "string list"
  | Msg_using string
  | Msg_render_model string
  | Msg_done string
  | Msg_no_combined

datatype event =
    Print message
  | Read_factory_settings
  | Libraries_load string
  | Import_obj string
  | Import_fbx string
  | Import_stl string
  | Import_gltf string
  | Transform_apply bool bool bool
  | Join
  | Makedirs string
  | Render_still string "object option"
  | Save_as_mainfile string

record scene =
  objects :: "object list"
  active :: "nat option"
  camera :: "nat option"
  filepath :: string
  files :: "string list"
  trace :: "event list"

definition emit :: "event \<Rightarrow> scene \<Rightarrow> scene" where
  "emit e s = s\<lparr>trace := trace s @ [e]\<rparr>"

definition print :: "message \<Rightarrow> scene \<Rightarrow> scene" where
  "print m s = emit (Print m) s"

text \<open>\<^verbatim>\<open>os.path.exists\<close>.\<close>

definition path_exists :: "scene \<Rightarrow> string \<Rightarrow> bool" where
  "path_exists s p = (p \<in> set (files s))"

text \<open>
  What the script cannot decide is a parameter of the model: the objects a file holds (for
  a \<^verbatim>\<open>.blend\<close> library an entry is \<open>None\<close> when the host could not load that name), the
  render output path of the factory settings, the energy of a newly created light, and the
  host's vector routine that turns a viewing direction into a rotation
  (\<^verbatim>\<open>to_track_quat('-Z', 'Y')\<close> followed by \<^verbatim>\<open>to_euler\<close>).
\<close>

record host =
  library_objects :: "string \<Rightarrow> object option list"
  imported_objects :: "string \<Rightarrow> object list"
  factory_filepath :: string
  new_light_energy :: real
  track_euler :: "vec3 \<Rightarrow> mat3"

definition get_object :: "scene \<Rightarrow> nat \<Rightarrow> object option" where
  "get_object s i = find (\<lambda>ob. ident ob = i) (objects s)"

definition update_object :: "nat \<Rightarrow> (object \<Rightarrow> object) \<Rightarrow> scene \<Rightarrow> scene" where
  "update_object i f s =
     s\<lparr>objects := map (\<lambda>ob. if ident ob = i then f ob else ob) (objects s)\<rparr>"

text \<open>
  Python holds references to scene objects; the model names an object by its \<open>ident\<close>.
  \<^verbatim>\<open>collection.objects.link\<close>: the object joins the scene under an identity that no
  object of the scene has. The selection state it arrives with is the one the host gives it.
\<close>

definition fresh_id :: "scene \<Rightarrow> nat" where
  "fresh_id s = Suc (foldr max (map ident (objects s)) 0)"

definition link_object :: "object \<Rightarrow> scene \<Rightarrow> scene" where
  "link_object ob s = s\<lparr>objects := objects s @ [ob\<lparr>ident := fresh_id s\<rparr>]\<rparr>"

definition link_objects :: "object list \<Rightarrow> scene \<Rightarrow> scene" where
  "link_objects obs s = fold link_object obs s"

text \<open>
  \<^verbatim>\<open>bpy.data.objects.new\<close>: an object at the origin with no rotation and unit scale, not
  selected and without a parent. Names are kept as the script gives them.
\<close>

definition new_object :: "string \<Rightarrow> obj_type \<Rightarrow> real \<Rightarrow> object" where
  "new_object nm ty en =
     \<lparr>ident = 0, name = nm, otype = ty, location = vzero, rotation = mat_id,
      scale = vones, verts = [], selected = False, energy = en, parent = None\<rparr>"

text \<open>
  \<^verbatim>\<open>bpy.ops.wm.read_factory_settings(use_empty=True)\<close>: the scene loses every object, its
  active object and its camera. Files on disk and the console stay.
\<close>

definition read_factory_settings :: "host \<Rightarrow> scene \<Rightarrow> scene" where
  "read_factory_settings h s =
     emit Read_factory_settings
       (s\<lparr>objects := [], active := None, camera := None, filepath := factory_filepath h\<rparr>)"

text \<open>The format importers: each records its call and links what the file holds.\<close>

definition import_with :: "event \<Rightarrow> object list \<Rightarrow> scene \<Rightarrow> scene" where
  "import_with e obs s = link_objects obs (emit e s)"

text \<open>
  \<^verbatim>\<open>os.makedirs\<close>: afterwards the directory and the directories above it exist.
\<close>

definition ancestors :: "string \<Rightarrow> string list" where
  "ancestors p = map (\<lambda>i. take i p) (filter (\<lambda>i. p ! i = CHR ''/'') [1..<length p])"

definition makedirs :: "string \<Rightarrow> scene \<Rightarrow> scene" where
  "makedirs p s =
     emit (Makedirs p)
       (s\<lparr>files := files s @ filter (\<lambda>d. d \<notin> set (files s)) (ancestors p @ [p])\<rparr>)"

text \<open>
  \<^verbatim>\<open>bpy.ops.render.render(write_still=True)\<close>: the host renders the scene through the scene
  camera as it stands at the call and writes the image to the render path.
\<close>

definition render_still :: "scene \<Rightarrow> scene" where
  "render_still s =
     emit (Render_still (filepath s)
             (case camera s of None \<Rightarrow> None | Some c \<Rightarrow> get_object s c))
       (s\<lparr>files := files s @ [filepath s]\<rparr>)"

definition save_as_mainfile :: "string \<Rightarrow> scene \<Rightarrow> scene" where
  "save_as_mainfile p s = emit (Save_as_mainfile p) (s\<lparr>files := files s @ [p]\<rparr>)"

section \<open>Geometry of objects in the host\<close>

text \<open>
  \<^verbatim>\<open>matrix_basis\<close> is the object's own transform: rotation times scale, then the location.
  \<^verbatim>\<open>matrix_world\<close> is the inherited transform applied after it; for an object without a
  parent the two agree. The host keeps both up to date with the object's attributes.
\<close>

definition linear_part :: "object \<Rightarrow> mat3" where
  "linear_part ob = mat_mul (rotation ob) (diag (scale ob))"

definition matrix_basis :: "object \<Rightarrow> vec3 \<Rightarrow> vec3" where
  "matrix_basis ob v = vadd (location ob) (mat_vec (linear_part ob) v)"

definition matrix_world :: "object \<Rightarrow> vec3 \<Rightarrow> vec3" where
  "matrix_world ob v =
     (case parent ob of
        None \<Rightarrow> matrix_basis ob v
      | Some (A, b) \<Rightarrow> vadd b (mat_vec A (matrix_basis ob v)))"

text \<open>The linear part of \<^verbatim>\<open>matrix_world\<close>.\<close>

definition world_linear :: "object \<Rightarrow> mat3" where
  "world_linear ob =
     (case parent ob of
        None \<Rightarrow> linear_part ob
      | Some (A, b) \<Rightarrow> mat_mul A (linear_part ob))"

text \<open>The inverse of \<^verbatim>\<open>matrix_world\<close>: from world space to the object's local frame.\<close>

definition to_local :: "object \<Rightarrow> vec3 \<Rightarrow> vec3" where
  "to_local ob w =
     (let p = (case parent ob of
                 None \<Rightarrow> w
               | Some (A, b) \<Rightarrow> mat_vec (mat_inv A) (vsub w b))
      in mat_vec (mat_inv (linear_part ob)) (vsub p (location ob)))"

text \<open>
  The local bounding box is the axis-aligned box of the vertices; without vertices it is
  the point at the origin. \<^verbatim>\<open>bound_box\<close> lists its eight corners. \<^verbatim>\<open>dimensions\<close> are its
  extents times the scale the host reads off \<^verbatim>\<open>matrix_world\<close>, the lengths of the three
  axes (columns) of its linear part; for an object without a parent and with a rotation
  that keeps lengths these are the absolute values of its scale.
\<close>

definition vnorm :: "vec3 \<Rightarrow> real" where
  "vnorm v = sqrt (dot v v)"

definition world_scale :: "object \<Rightarrow> vec3" where
  "world_scale ob =
     (vnorm (col (world_linear ob) 0), vnorm (col (world_linear ob) 1),
      vnorm (col (world_linear ob) 2))"

definition lowest :: "real list \<Rightarrow> real" where
  "lowest xs = (if xs = [] then 0 else Min (set xs))"

definition highest :: "real list \<Rightarrow> real" where
  "highest xs = (if xs = [] then 0 else Max (set xs))"

definition bb_min :: "vec3 list \<Rightarrow> vec3" where
  "bb_min vs = (lowest (map fst vs), lowest (map (fst \<circ> snd) vs), lowest (map (snd \<circ> snd) vs))"

definition bb_max :: "vec3 list \<Rightarrow> vec3" where
  "bb_max vs = (highest (map fst vs), highest (map (fst \<circ> snd) vs), highest (map (snd \<circ> snd) vs))"

definition corners :: "vec3 \<Rightarrow> vec3 \<Rightarrow> vec3 list" where
  "corners lo hi =
     (case (lo, hi) of ((x0, y0, z0), (x1, y1, z1)) \<Rightarrow>
        [(x0, y0, z0), (x0, y0, z1), (x0, y1, z1), (x0, y1, z0),
         (x1, y0, z0), (x1, y0, z1), (x1, y1, z1), (x1, y1, z0)])"

definition bound_box :: "object \<Rightarrow> vec3 list" where
  "bound_box ob = corners (bb_min (verts ob)) (bb_max (verts ob))"

definition dimensions :: "object \<Rightarrow> vec3" where
  "dimensions ob = vmul (world_scale ob) (vsub (bb_max (verts ob)) (bb_min (verts ob)))"

section \<open>The host operators on objects\<close>

text \<open>
  \<^verbatim>\<open>bpy.ops.object.transform_apply\<close> acts on the selected objects of the scene (the host
  iterates its \<^verbatim>\<open>selected_editable_objects\<close>); the active object is a target only when it
  is selected. For a mesh it moves the chosen parts of the object's own transform into the
  vertices and resets those parts; the inherited transform is not touched. Objects of other
  types are left as they are in this model.
\<close>

definition apply_transform :: "bool \<Rightarrow> bool \<Rightarrow> bool \<Rightarrow> object \<Rightarrow> object" where
  "apply_transform apply_loc apply_rot apply_scale ob =
     (let rsmat = (if apply_scale \<and> apply_rot then linear_part ob
                   else if apply_scale then diag (scale ob)
                   else if apply_rot then rotation ob
                   else mat_id);
          t = (if apply_loc then
                 (if apply_scale \<and> apply_rot then location ob
                  else mat_vec (mat_mul rsmat (mat_inv (linear_part ob))) (location ob))
               else vzero)
      in ob\<lparr>verts := map (\<lambda>v. vadd (mat_vec rsmat v) t) (verts ob),
             location := (if apply_loc then vzero else location ob),
             rotation := (if apply_rot then mat_id else rotation ob),
             scale := (if apply_scale then vones else scale ob)\<rparr>)"

definition transform_apply :: "bool \<Rightarrow> bool \<Rightarrow> bool \<Rightarrow> scene \<Rightarrow> scene" where
  "transform_apply apply_loc apply_rot apply_scale s =
     emit (Transform_apply apply_loc apply_rot apply_scale)
       (s\<lparr>objects :=
            map (\<lambda>ob. if selected ob \<and> otype ob = MESH
                       then apply_transform apply_loc apply_rot apply_scale ob else ob)
              (objects s)\<rparr>)"

text \<open>
  \<^verbatim>\<open>bpy.ops.object.join\<close>: when the active object is a selected mesh, the other selected
  meshes leave the scene and their vertices, taken to the active object's local frame,
  are added to the active object. Otherwise the operator is cancelled.
\<close>

definition join :: "scene \<Rightarrow> scene" where
  "join s =
     emit Join
       (case active s of
          None \<Rightarrow> s
        | Some a \<Rightarrow>
            (case get_object s a of
               None \<Rightarrow> s
             | Some act \<Rightarrow>
                 if otype act = MESH \<and> selected act then
                   let others = filter (\<lambda>ob. selected ob \<and> otype ob = MESH \<and> ident ob \<noteq> a)
                                  (objects s);
                       added = concat (map (\<lambda>ob. map (to_local act \<circ> matrix_world ob) (verts ob))
                                         others)
                   in s\<lparr>objects :=
                          map (\<lambda>ob. if ident ob = a then ob\<lparr>verts := verts ob @ added\<rparr> else ob)
                            (filter (\<lambda>ob. \<not> (selected ob \<and> otype ob = MESH \<and> ident ob \<noteq> a))
                               (objects s))\<rparr>
                 else s))"

section \<open>Model import\<close>

text \<open>
  \<open>load_3Dmodel\<close>: the existence check, then the reset of the scene, then the dispatch on
  the lower-cased extension. The \<^verbatim>\<open>.blend\<close> branch loads the library and links every
  entry that is not \<open>None\<close>.
\<close>

definition load_3Dmodel :: "host \<Rightarrow> string \<Rightarrow> scene \<Rightarrow> (error + unit) \<times> scene" where
  "load_3Dmodel h file_path s =
     (if \<not> path_exists s file_path then (Inl (FileNotFoundError file_path), s)
      else
        let s1 = read_factory_settings h s;
            file_ext = lower (snd (splitext file_path))
        in if file_ext = ''.blend'' then
             (Inr (), print (Msg_import_ok file_path)
                (link_objects (List.map_filter id (library_objects h file_path))
                   (emit (Libraries_load file_path) s1)))
           else if file_ext = ''.obj'' then
             (Inr (), print (Msg_import_ok file_path)
                (import_with (Import_obj file_path) (imported_objects h file_path) s1))
           else if file_ext = ''.fbx'' then
             (Inr (), print (Msg_import_ok file_path)
                (import_with (Import_fbx file_path) (imported_objects h file_path) s1))
           else if file_ext = ''.stl'' then
             (Inr (), print (Msg_import_ok file_path)
                (import_with (Import_stl file_path) (imported_objects h file_path) s1))
           else if file_ext = ''.glb'' \<or> file_ext = ''.gltf'' then
             (Inr (), print (Msg_import_ok file_path)
                (import_with (Import_gltf file_path) (imported_objects h file_path) s1))
           else (Inl (ValueError file_ext), s1))"

section \<open>Mesh consolidation\<close>

text \<open>
  \<open>combine_objects\<close> returns the reference it reads from \<^verbatim>\<open>bpy.context.object\<close>, the
  active object, or \<open>None\<close> when the scene has no mesh.
\<close>

definition combine_objects :: "scene \<Rightarrow> nat option \<times> scene" where
  "combine_objects s =
     (let imported_objects = map ident (filter (\<lambda>ob. otype ob = MESH) (objects s))
      in if imported_objects = [] then (None, print Msg_no_mesh s)
         else
           let s1 = fold (\<lambda>obj s. transform_apply True True True (s\<lparr>active := Some obj\<rparr>))
                      imported_objects s;
               s2 = fold (\<lambda>obj. update_object obj (\<lambda>ob. ob\<lparr>selected := True\<rparr>))
                      imported_objects s1;
               s3 = join (s2\<lparr>active := Some (imported_objects ! 0)\<rparr>);
               combined_object = active s3
           in (combined_object,
               case combined_object of
                 None \<Rightarrow> s3
               | Some c \<Rightarrow> update_object c (\<lambda>ob. ob\<lparr>name := ''Combined_Object''\<rparr>) s3))"

section \<open>Recentering\<close>

text \<open>The centre of the eight corners of the bounding box, taken to world space.\<close>

definition bbox_center :: "object \<Rightarrow> vec3" where
  "bbox_center ob = vdiv (foldl vadd vzero (map (matrix_world ob) (bound_box ob))) 8"

definition move_bbox_to_origin :: "nat \<Rightarrow> scene \<Rightarrow> (error + unit) \<times> scene" where
  "move_bbox_to_origin obj s =
     (case get_object s obj of
        None \<Rightarrow> (Inl ReferenceError, s)
      | Some ob \<Rightarrow>
          (Inr (), update_object obj
                     (\<lambda>ob'. ob'\<lparr>location := vsub (location ob') (bbox_center ob)\<rparr>) s))"

section \<open>Lighting setup\<close>

definition diagonal_positions :: "vec3 list" where
  "diagonal_positions = [(-2, -2, 2), (2, -2, 2), (-2, 2, 2), (2, 2, 2)]"

text \<open>The body of the loop over \<^verbatim>\<open>enumerate(diagonal_positions)\<close>.\<close>

definition diagonal_light :: "host \<Rightarrow> nat \<times> vec3 \<Rightarrow> scene \<Rightarrow> scene" where
  "diagonal_light h ip s =
     (let light_object = fresh_id s;
          s1 = link_object
                 (new_object (''Diagonal_Light_'' @ str_nat (fst ip + 1)) LIGHT
                    (new_light_energy h)) s;
          s2 = update_object light_object (\<lambda>ob. ob\<lparr>location := snd ip\<rparr>) s1
      in update_object light_object (\<lambda>ob. ob\<lparr>energy := 150\<rparr>) s2)"

definition setup_lights :: "host \<Rightarrow> scene \<Rightarrow> scene" where
  "setup_lights h s =
     (let center_light = fresh_id s;
          s1 = link_object (new_object ''Center_Light'' LIGHT (new_light_energy h)) s;
          s2 = update_object center_light (\<lambda>ob. ob\<lparr>location := (0, 0, 2)\<rparr>) s1;
          s3 = update_object center_light (\<lambda>ob. ob\<lparr>energy := 200\<rparr>) s2
      in fold (diagonal_light h) (enumerate 0 diagonal_positions) s3)"

section \<open>Orbit rendering\<close>

definition frame_name :: "int \<Rightarrow> string" where
  "frame_name angle_deg = ''angle_'' @ format_03d angle_deg @ ''.png''"

text \<open>One turn of the loop of \<open>render_views\<close>.\<close>

definition render_angle :: "host \<Rightarrow> string \<Rightarrow> real \<Rightarrow> nat \<Rightarrow> int \<Rightarrow> scene \<Rightarrow> scene" where
  "render_angle h output_dir distance camera_object angle_deg s =
     (let angle_rad = radians (of_int angle_deg);
          x = distance * cos angle_rad;
          y = distance * sin angle_rad;
          z = 0;
          s1 = update_object camera_object (\<lambda>ob. ob\<lparr>location := (x, y, z)\<rparr>) s;
          direction = vsub vzero (x, y, z);
          s2 = update_object camera_object
                 (\<lambda>ob. ob\<lparr>rotation := track_euler h direction\<rparr>) s1;
          s3 = s2\<lparr>filepath := path_join output_dir (frame_name angle_deg)\<rparr>;
          s4 = render_still s3
      in print (Msg_angle_done angle_deg (filepath s4)) s4)"

definition render_views ::
    "host \<Rightarrow> string \<Rightarrow> int \<Rightarrow> real \<Rightarrow> scene \<Rightarrow> (error + unit) \<times> scene" where
  "render_views h output_dir angle_step distance s =
     (let s1 = (if \<not> path_exists s output_dir then makedirs output_dir s else s);
          camera_object = fresh_id s1;
          s2 = link_object (new_object ''Camera'' CAMERA 0) s1;
          s3 = s2\<lparr>camera := Some camera_object\<rparr>
      in if angle_step = 0 then (Inl (ValueError ''range() arg 3 must not be zero''), s3)
         else (Inr (),
               fold (render_angle h output_dir distance camera_object)
                 (py_range 0 360 angle_step) s3))"

section \<open>Scene persistence\<close>

definition save_combined_object :: "string \<Rightarrow> string \<Rightarrow> scene \<Rightarrow> scene" where
  "save_combined_object output_dir model_name s =
     (let s1 = (if \<not> path_exists s output_dir then makedirs output_dir s else s);
          output_file = path_join output_dir (model_name @ ''_final.blend'')
      in print (Msg_saved output_file) (save_as_mainfile output_file s1))"

section \<open>Size normalization\<close>

definition max3 :: "vec3 \<Rightarrow> real" where
  "max3 v = (case v of (x, y, z) \<Rightarrow> max x (max y z))"

definition normalize_model_size :: "nat \<Rightarrow> real \<Rightarrow> scene \<Rightarrow> (error + unit) \<times> scene" where
  "normalize_model_size obj target_size s =
     (case get_object s obj of
        None \<Rightarrow> (Inl ReferenceError, s)
      | Some ob \<Rightarrow>
          let dims = dimensions ob;
              max_dimension = max3 dims;
              s1 = print (Msg_original_dims dims) s
          in if max_dimension = 0 then (Inr (), print Msg_zero_size s1)
             else
               let scale_factor = target_size / max_dimension;
                   s2 = update_object obj (\<lambda>ob. ob\<lparr>scale := smul scale_factor (scale ob)\<rparr>) s1;
                   s3 = transform_apply False False True (s2\<lparr>active := Some obj\<rparr>);
                   new_dimensions = (case get_object s3 obj of
                                       None \<Rightarrow> vzero | Some ob' \<Rightarrow> dimensions ob')
               in (Inr (), print (Msg_scale_factor scale_factor)
                             (print (Msg_new_dims new_dimensions) s3)))"

section \<open>Model-path resolution\<close>

definition supported_exts :: "string list" where
  "supported_exts = [''.blend'', ''.obj'', ''.fbx'', ''.stl'', ''.glb'', ''.gltf'']"

text \<open>
  The files of the model directory that \<open>get_model_path_from_args\<close> tries for a name
  without extension, in the order of the extension list, keeping those that exist.
\<close>

definition potential_files :: "string \<Rightarrow> string \<Rightarrow> scene \<Rightarrow> string list" where
  "potential_files model_dir model_filename s =
     filter (path_exists s)
       (map (\<lambda>ext. path_join model_dir (model_filename @ ext)) supported_exts)"

definition model_name_of :: "string \<Rightarrow> string" where
  "model_name_of model_path = fst (splitext (basename model_path))"

text \<open>
  \<open>script_dir\<close> is the directory of the script file, \<open>argv\<close> is \<^verbatim>\<open>sys.argv\<close>.
  A missing \<^verbatim>\<open>--\<close> raises ValueError inside the \<^verbatim>\<open>try\<close>, which is caught and leads to
  the default; FileNotFoundError is not caught there.
\<close>

definition get_model_path_from_args ::
    "string \<Rightarrow> string list \<Rightarrow> scene \<Rightarrow> (error + string \<times> string) \<times> scene" where
  "get_model_path_from_args script_dir argv s =
     (let model_dir = path_join script_dir ''model'';
          default_model = path_join model_dir ''car.blend''
      in case index_of ''--'' argv of
           None \<Rightarrow> (Inr (default_model, ''car''), s)
         | Some idx \<Rightarrow>
             if int idx < int (length argv) - 1 then
               let model_filename = argv ! (idx + 1) in
               if snd (splitext model_filename) = [] then
                 let found = potential_files model_dir model_filename s in
                 if length found = 1 then
                   (Inr (found ! 0, model_name_of (found ! 0)), s)
                 else if length found > 1 then
                   (Inr (found ! 0, model_name_of (found ! 0)),
                    print (Msg_using (found ! 0)) (print (Msg_multiple found) s))
                 else (Inl (FileNotFoundError model_filename), s)
               else
                 let model_path = path_join model_dir model_filename
                 in (Inr (model_path, model_name_of model_path), s)
             else (Inr (default_model, ''car''), s))"

section \<open>The script\<close>

text \<open>
  The body under \<^verbatim>\<open>if __name__ == "__main__"\<close>. An exception of a step ends the run with
  the scene as that step left it.
\<close>

definition main :: "host \<Rightarrow> string \<Rightarrow> string list \<Rightarrow> scene \<Rightarrow> (error + unit) \<times> scene" where
  "main h script_dir argv s =
     (case get_model_path_from_args script_dir argv s of
        (Inl e, s1) \<Rightarrow> (Inl e, s1)
      | (Inr (model_path, model_name), s1) \<Rightarrow>
          (case load_3Dmodel h model_path (print (Msg_render_model model_path) s1) of
             (Inl e, s2) \<Rightarrow> (Inl e, s2)
           | (Inr u, s2) \<Rightarrow>
               (case combine_objects s2 of
                  (None, s3) \<Rightarrow> (Inr (), print Msg_no_combined s3)
                | (Some combined_object, s3) \<Rightarrow>
                    (case normalize_model_size combined_object 2 s3 of
                       (Inl e, s4) \<Rightarrow> (Inl e, s4)
                     | (Inr u, s4) \<Rightarrow>
                         (case move_bbox_to_origin combined_object s4 of
                            (Inl e, s5) \<Rightarrow> (Inl e, s5)
                          | (Inr u, s5) \<Rightarrow>
                              let s6 = setup_lights h s5;
                                  output_dir = path_join (path_join script_dir ''output'')
                                                 model_name;
                                  camera_distance = 8
                              in (case render_views h output_dir 30 camera_distance s6 of
                                    (Inl e, s7) \<Rightarrow> (Inl e, s7)
                                  | (Inr u, s7) \<Rightarrow>
                                      (Inr (),
                                       print (Msg_done model_name)
                                         (save_combined_object
                                            (path_join script_dir ''output'') model_name
                                            s7))))))))"

section \<open>The asset-generation script\<close>

text \<open>
  The second script is a straight sequence of calls into an inference library. The
  library is a parameter of the model: opening an image, running the pipeline on an image
  with a seed (the result is a dictionary from names to lists of representations),
  rendering a video of a representation (a dictionary from channel names to videos) and
  building an interchange object from a splat and a mesh. The script is modelled by the
  calls it makes, in order, and by the exception that ends it, if any.
\<close>

record ('i, 'r, 'v, 'g) library =
  image_open :: "string \<Rightarrow> error + 'i"
  run :: "'i \<Rightarrow> int \<Rightarrow> (string \<rightharpoonup> 'r list)"
  render_video :: "'r \<Rightarrow> (string \<rightharpoonup> 'v)"
  to_glb :: "'r \<Rightarrow> 'r \<Rightarrow> real \<Rightarrow> int \<Rightarrow> 'g"

datatype ('i, 'r, 'v, 'g) call =
    From_pretrained string
  | Cuda
  | Image_open string
  | Run 'i int
  | Render_video 'r
  | Mimsave string 'v int
  | To_glb 'r 'r real int
  | Export 'g string
  | Save_ply 'r string

text \<open>\<^verbatim>\<open>d[key]\<close> on a dictionary and \<^verbatim>\<open>xs[0]\<close> on a list.\<close>

definition getitem :: "(string \<rightharpoonup> 'a) \<Rightarrow> string \<Rightarrow> error + 'a" where
  "getitem d key = (case d key of None \<Rightarrow> Inl (KeyError key) | Some v \<Rightarrow> Inr v)"

definition first_item :: "'a list \<Rightarrow> error + 'a" where
  "first_item xs = (case xs of [] \<Rightarrow> Inl IndexError | x # rest \<Rightarrow> Inr x)"

text \<open>\<^verbatim>\<open>outputs[key][0]\<close>.\<close>

definition output0 :: "(string \<rightharpoonup> 'r list) \<Rightarrow> string \<Rightarrow> error + 'r" where
  "output0 outputs key =
     (case getitem outputs key of Inl e \<Rightarrow> Inl e | Inr xs \<Rightarrow> first_item xs)"

text \<open>
  One of the three blocks that render a video of \<^verbatim>\<open>outputs[key][0]\<close>, take a channel of
  it and save it at 30 frames per second. The calls made so far are passed along.
\<close>

definition render_and_save ::
    "('i, 'r, 'v, 'g) library \<Rightarrow> (string \<rightharpoonup> 'r list) \<Rightarrow> string \<Rightarrow> string \<Rightarrow> string \<Rightarrow>
     ('i, 'r, 'v, 'g) call list \<Rightarrow> (error + unit) \<times> ('i, 'r, 'v, 'g) call list" where
  "render_and_save L outputs key channel file calls =
     (case output0 outputs key of
        Inl e \<Rightarrow> (Inl e, calls)
      | Inr rep \<Rightarrow>
          (case getitem (render_video L rep) channel of
             Inl e \<Rightarrow> (Inl e, calls @ [Render_video rep])
           | Inr video \<Rightarrow> (Inr (), calls @ [Render_video rep, Mimsave file video 30])))"

definition example_script ::
    "('i, 'r, 'v, 'g) library \<Rightarrow> (error + unit) \<times> ('i, 'r, 'v, 'g) call list" where
  "example_script L =
     (let calls0 = [From_pretrained ''JeffreyXiang/TRELLIS-image-large'', Cuda];
          image_path = ''assets/example_image/car.png'';
          base_filename = fst (splitext (basename image_path))
      in case image_open L image_path of
           Inl e \<Rightarrow> (Inl e, calls0 @ [Image_open image_path])
         | Inr img \<Rightarrow>
             let outputs = run L img 1;
                 calls1 = calls0 @ [Image_open image_path, Run img 1]
             in (case render_and_save L outputs ''gaussian'' ''color''
                        (base_filename @ ''_gs.mp4'') calls1 of
                   (Inl e, calls2) \<Rightarrow> (Inl e, calls2)
                 | (Inr u, calls2) \<Rightarrow>
                (case render_and_save L outputs ''radiance_field'' ''color''
                        (base_filename @ ''_rf.mp4'') calls2 of
                   (Inl e, calls3) \<Rightarrow> (Inl e, calls3)
                 | (Inr u, calls3) \<Rightarrow>
                (case render_and_save L outputs ''mesh'' ''normal''
                        (base_filename @ ''_mesh.mp4'') calls3 of
                   (Inl e, calls4) \<Rightarrow> (Inl e, calls4)
                 | (Inr u, calls4) \<Rightarrow>
                (case output0 outputs ''gaussian'' of
                   Inl e \<Rightarrow> (Inl e, calls4)
                 | Inr gaussian \<Rightarrow>
                (case output0 outputs ''mesh'' of
                   Inl e \<Rightarrow> (Inl e, calls4)
                 | Inr mesh \<Rightarrow>
                     let glb = to_glb L gaussian mesh (95 / 100) 1024;
                         calls5 = calls4 @ [To_glb gaussian mesh (95 / 100) 1024,
                                            Export glb (base_filename @ ''.glb'')]
                     in (case output0 outputs ''gaussian'' of
                           Inl e \<Rightarrow> (Inl e, calls5)
                         | Inr gaussian' \<Rightarrow>
                             (Inr (),
                              calls5 @ [Save_ply gaussian' (base_filename @ ''.ply'')]))))))))"

section \<open>Observations and concrete data\<close>

text \<open>What the lighting claim observes of an object: its type, position and intensity.\<close>

definition light_summary :: "object \<Rightarrow> obj_type \<times> vec3 \<times> real" where
  "light_summary ob = (otype ob, location ob, energy ob)"

text \<open>The render paths and the cameras of the render calls of a trace, in order.\<close>

definition rendered_paths :: "event list \<Rightarrow> string list" where
  "rendered_paths tr = concat (map (\<lambda>e. case e of Render_still p c \<Rightarrow> [p] | _ \<Rightarrow> []) tr)"

definition rendered_cameras :: "event list \<Rightarrow> object option list" where
  "rendered_cameras tr = concat (map (\<lambda>e. case e of Render_still p c \<Rightarrow> [c] | _ \<Rightarrow> []) tr)"

text \<open>The inference calls among the calls of a run.\<close>

definition inference_calls :: "('i, 'r, 'v, 'g) call list \<Rightarrow> ('i \<times> int) list" where
  "inference_calls calls = concat (map (\<lambda>c. case c of Run i seed \<Rightarrow> [(i, seed)] | _ \<Rightarrow> []) calls)"

text \<open>
  An object after the host has applied its whole transform to its vertices, and what one
  call of the operator with all three parts does to an object of the scene.
\<close>

definition baked :: "object \<Rightarrow> object" where
  "baked ob = ob\<lparr>verts := map (matrix_basis ob) (verts ob), location := vzero,
                 rotation := mat_id, scale := vones\<rparr>"

definition bake_selected :: "object \<Rightarrow> object" where
  "bake_selected ob = (if selected ob \<and> otype ob = MESH then baked ob else ob)"

text \<open>
  The axes of an object in world space before its own scale, the inherited linear part
  times the rotation, and their lengths; the absolute values of a scale.
\<close>

definition world_axes :: "object \<Rightarrow> mat3" where
  "world_axes ob =
     (case parent ob of None \<Rightarrow> rotation ob | Some (A, b) \<Rightarrow> mat_mul A (rotation ob))"

definition axis_lengths :: "object \<Rightarrow> vec3" where
  "axis_lengths ob =
     (vnorm (col (world_axes ob) 0), vnorm (col (world_axes ob) 1),
      vnorm (col (world_axes ob) 2))"

definition abs3 :: "vec3 \<Rightarrow> vec3" where
  "abs3 v = (case v of (x, y, z) \<Rightarrow> (\<bar>x\<bar>, \<bar>y\<bar>, \<bar>z\<bar>))"

text \<open>An empty scene over a given set of files on disk.\<close>

definition demo_scene :: "string list \<Rightarrow> scene" where
  "demo_scene fs =
     \<lparr>objects = [], active = None, camera = None, filepath = [], files = fs,
      trace = []\<rparr>"

definition demo_object :: "vec3 \<Rightarrow> bool \<Rightarrow> object" where
  "demo_object loc sel =
     \<lparr>ident = 0, name = ''Cube'', otype = MESH, location = loc,
      rotation = ((1, 0, 0), (0, 1, 0), (0, 0, 1)), scale = (1, 1, 1),
      verts = [(0, 0, 0), (1, 2, 4)], selected = sel, energy = 0, parent = None\<rparr>"

definition demo_host :: host where
  "demo_host =
     \<lparr>library_objects = (\<lambda>p. [Some (demo_object (1, 0, 0) False)]),
      imported_objects = (\<lambda>p. [demo_object (1, 0, 0) True]),
      factory_filepath = ''/tmp/'', new_light_energy = 10,
      track_euler = (\<lambda>d. ((1, 0, 0), (0, 1, 0), (0, 0, 1)))\<rparr>"

text \<open>A scene with one mesh, selected or not, one unit along the x axis.\<close>

definition mesh_scene :: "bool \<Rightarrow> scene" where
  "mesh_scene sel = (demo_scene [])\<lparr>objects := [demo_object (1, 0, 0) sel]\<rparr>"

text \<open>A scene with one mesh that has no vertex.\<close>

definition point_scene :: "bool \<Rightarrow> scene" where
  "point_scene sel =
     (demo_scene [])\<lparr>objects := [new_object ''Point'' MESH 0\<lparr>selected := sel\<rparr>]\<rparr>"

text \<open>
  The same mesh as the child of an object that doubles lengths, such as an empty of scale
  2 at the origin, and a scene that holds it.
\<close>

definition child_object :: "vec3 \<Rightarrow> bool \<Rightarrow> object" where
  "child_object loc sel =
     (demo_object loc sel)\<lparr>parent := Some (((2, 0, 0), (0, 2, 0), (0, 0, 2)), (0, 0, 0))\<rparr>"

definition child_scene :: "bool \<Rightarrow> scene" where
  "child_scene sel = (demo_scene [])\<lparr>objects := [child_object (1, 0, 0) sel]\<rparr>"

text \<open>A host whose library files hold an empty of scale 2 and that child of it.\<close>

definition demo_empty :: object where
  "demo_empty = (new_object ''Empty'' EMPTY 0)\<lparr>scale := (2, 2, 2)\<rparr>"

definition child_host :: host where
  "child_host =
     demo_host\<lparr>library_objects := (\<lambda>p. [Some demo_empty, Some (child_object (1, 0, 0) False)])\<rparr>"

text \<open>A library over strings whose pipeline yields two representations of each kind.\<close>

definition demo_library :: "(string, string, string, string) library" where
  "demo_library =
     \<lparr>image_open = (\<lambda>p. Inr (''image:'' @ p)),
      run = (\<lambda>i seed. [''gaussian'' \<mapsto> [''g0'', ''g1''],
                        ''radiance_field'' \<mapsto> [''r0'', ''r1''],
                        ''mesh'' \<mapsto> [''m0'', ''m1'']]),
      render_video = (\<lambda>r. [''color'' \<mapsto> r @ ''.color'', ''normal'' \<mapsto> r @ ''.normal'']),
      to_glb = (\<lambda>g m simplify texture_size. g @ ''+'' @ m)\<rparr>"

section \<open>Properties of model-path resolution\<close>

text \<open>
  Claim C5. When the argument after \<^verbatim>\<open>--\<close> has no extension, the candidates are the
  joins of the model directory with the name followed by each of the six extensions, in
  that order, kept when they exist. No candidate: FileNotFoundError, nothing printed.
  One candidate: it is returned, nothing printed. Several: the first in extension order is
  returned, after the notice listing them and the notice of the choice. When \<^verbatim>\<open>--\<close> is
  missing or is the last argument, the default \<^verbatim>\<open>car.blend\<close> of the model directory is
  returned and nothing is raised.
\<close>

theorem get_model_path_resolution:
  "(index_of ''--'' argv = Some idx \<and> idx + 1 < length argv
      \<and> snd (splitext (argv ! (idx + 1))) = [] \<longrightarrow>
      (let model_filename = argv ! (idx + 1);
           found = filter (path_exists s)
                     (map (\<lambda>ext. path_join (path_join script_dir ''model'') (model_filename @ ext))
                        [''.blend'', ''.obj'', ''.fbx'', ''.stl'', ''.glb'', ''.gltf''])
       in (found = [] \<longrightarrow>
             get_model_path_from_args script_dir argv s
               = (Inl (FileNotFoundError model_filename), s))
        \<and> (length found = 1 \<longrightarrow>
             get_model_path_from_args script_dir argv s
               = (Inr (hd found, model_name_of (hd found)), s))
        \<and> (length found > 1 \<longrightarrow>
             get_model_path_from_args script_dir argv s
               = (Inr (hd found, model_name_of (hd found)),
                  s\<lparr>trace := trace s @ [Print (Msg_multiple found), Print (Msg_using (hd found))]\<rparr>))))
   \<and> (index_of ''--'' argv = None \<or> index_of ''--'' argv = Some (length argv - 1) \<longrightarrow>
        get_model_path_from_args script_dir argv s
          = (Inr (path_join (path_join script_dir ''model'') ''car.blend'', ''car''), s))"
proof -
  define fn where "fn = argv ! (idx + 1)"
  define found where "found = potential_files (path_join script_dir ''model'') fn s"
  have pf: "filter (path_exists s)
              (map (\<lambda>ext. path_join (path_join script_dir ''model'') (fn @ ext))
                 [''.blend'', ''.obj'', ''.fbx'', ''.stl'', ''.glb'', ''.gltf'']) = found"
    by (simp only: found_def potential_files_def supported_exts_def)
  have run: "get_model_path_from_args script_dir argv s =
        (if length found = 1 then (Inr (found ! 0, model_name_of (found ! 0)), s)
         else if length found > 1 then
           (Inr (found ! 0, model_name_of (found ! 0)),
            s\<lparr>trace := trace s @ [Print (Msg_multiple found), Print (Msg_using (found ! 0))]\<rparr>)
         else (Inl (FileNotFoundError fn), s))"
    if "index_of ''--'' argv = Some idx" "idx + 1 < length argv" "snd (splitext fn) = []"
    using that
    by (simp add: get_model_path_from_args_def Let_def found_def fn_def print_def emit_def)
  have first: "found ! 0 = hd found" if "length found = 1 \<or> 1 < length found"
    using that by (cases found) simp_all
  have usable: ?thesis if "index_of ''--'' argv = Some idx" "idx + 1 < length argv"
      "snd (splitext fn) = []"
  proof -
    have "index_of ''--'' argv \<noteq> None" "index_of ''--'' argv \<noteq> Some (length argv - 1)"
      using that by auto
    moreover have "found = [] \<longrightarrow> get_model_path_from_args script_dir argv s
               = (Inl (FileNotFoundError fn), s)"
      using run [OF that] by simp
    moreover have "length found = 1 \<longrightarrow> get_model_path_from_args script_dir argv s
               = (Inr (hd found, model_name_of (hd found)), s)"
      using run [OF that] first by (cases found) simp_all
    moreover have "length found > 1 \<longrightarrow> get_model_path_from_args script_dir argv s
               = (Inr (hd found, model_name_of (hd found)),
                  s\<lparr>trace := trace s @ [Print (Msg_multiple found), Print (Msg_using (hd found))]\<rparr>)"
      using run [OF that] first by (cases found) simp_all
    ultimately show ?thesis
      unfolding Let_def fn_def [symmetric] pf by blast
  qed
  have fallback: "get_model_path_from_args script_dir argv s
          = (Inr (path_join (path_join script_dir ''model'') ''car.blend'', ''car''), s)"
    if "index_of ''--'' argv = None \<or> index_of ''--'' argv = Some (length argv - 1)"
    using that by (auto simp: get_model_path_from_args_def Let_def)
  show ?thesis
  proof (cases "index_of ''--'' argv = Some idx \<and> idx + 1 < length argv
      \<and> snd (splitext fn) = []")
    case True
    then show ?thesis using usable by blast
  next
    case False
    then show ?thesis using fallback unfolding fn_def by blast
  qed
qed

theorem get_model_path_resolution_witness:
  "get_model_path_from_args ''/s'' [''blender'', ''--'', ''car''] (demo_scene [''/s/model/car.fbx'', ''/s/model/car.obj''])
     = (Inr (''/s/model/car.obj'', ''car''),
        (demo_scene [''/s/model/car.fbx'', ''/s/model/car.obj''])
          \<lparr>trace := [Print (Msg_multiple [''/s/model/car.obj'', ''/s/model/car.fbx'']),
                      Print (Msg_using ''/s/model/car.obj'')]\<rparr>)
   \<and> get_model_path_from_args ''/s'' [''blender'', ''--'', ''car''] (demo_scene [''/s/model/car.blend''])
     = (Inr (''/s/model/car.blend'', ''car''), demo_scene [''/s/model/car.blend''])
   \<and> get_model_path_from_args ''/s'' [''blender'', ''--'', ''car''] (demo_scene [])
     = (Inl (FileNotFoundError ''car''), demo_scene [])
   \<and> get_model_path_from_args ''/s'' [''blender'', ''--''] (demo_scene [])
     = (Inr (''/s/model/car.blend'', ''car''), demo_scene [])"
  using get_model_path_resolution [of "[''blender'', ''--'', ''car'']" 1
          "demo_scene [''/s/model/car.fbx'', ''/s/model/car.obj'']" "''/s''"]
        get_model_path_resolution [of "[''blender'', ''--'', ''car'']" 1
          "demo_scene [''/s/model/car.blend'']" "''/s''"]
        get_model_path_resolution [of "[''blender'', ''--'', ''car'']" 1
          "demo_scene []" "''/s''"]
        get_model_path_resolution [of "[''blender'', ''--'']" 1
          "demo_scene []" "''/s''"]
  by (simp add: demo_scene_def splitext_def basename_def path_join_def startswith_def
        endswith_def path_exists_def model_name_of_def Let_def)

section \<open>Properties of model import\<close>

lemma trace_link_object [simp]: "trace (link_object ob s) = trace s"
  by (simp add: link_object_def)

lemma trace_link_objects [simp]: "trace (link_objects obs s) = trace s"
  unfolding link_objects_def by (induction obs arbitrary: s) simp_all

lemma trace_emit [simp]: "trace (emit e s) = trace s @ [e]"
  by (simp add: emit_def)

lemma trace_print [simp]: "trace (print m s) = trace s @ [Print m]"
  by (simp add: print_def)

lemma trace_read_factory_settings [simp]:
  "trace (read_factory_settings h s) = trace s @ [Read_factory_settings]"
  by (simp add: read_factory_settings_def)

lemma trace_import_with [simp]: "trace (import_with e obs s) = trace s @ [e]"
  by (simp add: import_with_def)

text \<open>
  Claim C6. \<open>load_3Dmodel\<close> raises FileNotFoundError exactly when the path does not exist,
  raises ValueError (the unsupported-format error) exactly when the path exists and its
  lower-cased extension is none of the six supported ones, and otherwise returns no value
  after the reset of the scene and the call of the importer that belongs to the extension.
\<close>

theorem load_3Dmodel_errors_and_dispatch:
  "((\<exists>m. fst (load_3Dmodel h p s) = Inl (FileNotFoundError m)) \<longleftrightarrow> \<not> path_exists s p)
   \<and> ((\<exists>e. fst (load_3Dmodel h p s) = Inl (ValueError e)) \<longleftrightarrow>
        path_exists s p
        \<and> lower (snd (splitext p)) \<notin> set [''.blend'', ''.obj'', ''.fbx'', ''.stl'', ''.glb'', ''.gltf''])
   \<and> (path_exists s p
        \<and> lower (snd (splitext p)) \<in> set [''.blend'', ''.obj'', ''.fbx'', ''.stl'', ''.glb'', ''.gltf'']
       \<longrightarrow> fst (load_3Dmodel h p s) = Inr ()
         \<and> trace (snd (load_3Dmodel h p s))
             = trace s @
               [Read_factory_settings,
                (let ext = lower (snd (splitext p))
                 in if ext = ''.blend'' then Libraries_load p
                    else if ext = ''.obj'' then Import_obj p
                    else if ext = ''.fbx'' then Import_fbx p
                    else if ext = ''.stl'' then Import_stl p
                    else Import_gltf p),
                Print (Msg_import_ok p)])"
  by (simp add: load_3Dmodel_def Let_def)

theorem load_3Dmodel_errors_and_dispatch_witness:
  "fst (load_3Dmodel demo_host ''/m/car.OBJ'' (demo_scene [''/m/car.OBJ''])) = Inr ()
   \<and> trace (snd (load_3Dmodel demo_host ''/m/car.OBJ'' (demo_scene [''/m/car.OBJ''])))
       = [Read_factory_settings, Import_obj ''/m/car.OBJ'', Print (Msg_import_ok ''/m/car.OBJ'')]
   \<and> fst (load_3Dmodel demo_host ''/m/car.txt'' (demo_scene [''/m/car.txt'']))
       = Inl (ValueError ''.txt'')
   \<and> fst (load_3Dmodel demo_host ''/m/car.obj'' (demo_scene []))
       = Inl (FileNotFoundError ''/m/car.obj'')"
proof -
  have ext: "lower (snd (splitext ''/m/car.OBJ'')) = ''.obj''"
    by code_simp
  have ex: "path_exists (demo_scene [''/m/car.OBJ'']) ''/m/car.OBJ''"
    by (simp add: path_exists_def demo_scene_def)
  have t: "trace (demo_scene [''/m/car.OBJ'']) = []"
    by (simp add: demo_scene_def)
  have ok: "fst (load_3Dmodel demo_host ''/m/car.OBJ'' (demo_scene [''/m/car.OBJ''])) = Inr ()
   \<and> trace (snd (load_3Dmodel demo_host ''/m/car.OBJ'' (demo_scene [''/m/car.OBJ''])))
       = [Read_factory_settings, Import_obj ''/m/car.OBJ'', Print (Msg_import_ok ''/m/car.OBJ'')]"
    using load_3Dmodel_errors_and_dispatch
            [of demo_host "''/m/car.OBJ''" "demo_scene [''/m/car.OBJ'']"] ext ex t
    by simp
  have bad: "fst (load_3Dmodel demo_host ''/m/car.txt'' (demo_scene [''/m/car.txt'']))
       = Inl (ValueError ''.txt'')"
    by code_simp
  have missing: "fst (load_3Dmodel demo_host ''/m/car.obj'' (demo_scene []))
       = Inl (FileNotFoundError ''/m/car.obj'')"
    by (simp add: load_3Dmodel_def path_exists_def demo_scene_def)
  show ?thesis using ok bad missing by simp
qed

text \<open>
  Claim C10. When \<open>load_3Dmodel\<close> raises for an unsupported extension, the scene has
  already been reset: its objects, active object and camera are gone. When it raises
  FileNotFoundError, the scene is the one it was given.
\<close>

theorem load_3Dmodel_not_atomic:
  "(path_exists s p
      \<and> lower (snd (splitext p)) \<notin> set [''.blend'', ''.obj'', ''.fbx'', ''.stl'', ''.glb'', ''.gltf'']
     \<longrightarrow> load_3Dmodel h p s
           = (Inl (ValueError (lower (snd (splitext p)))),
              s\<lparr>objects := [], active := None, camera := None,
                filepath := factory_filepath h,
                trace := trace s @ [Read_factory_settings]\<rparr>))
   \<and> (\<not> path_exists s p \<longrightarrow> load_3Dmodel h p s = (Inl (FileNotFoundError p), s))"
  by (simp add: load_3Dmodel_def Let_def read_factory_settings_def emit_def)

theorem load_3Dmodel_not_atomic_witness:
  "load_3Dmodel demo_host ''/m/car.txt''
      ((demo_scene [''/m/car.txt''])\<lparr>objects := [demo_object (0, 0, 0) True]\<rparr>)
     = (Inl (ValueError ''.txt''),
        (demo_scene [''/m/car.txt''])\<lparr>filepath := ''/tmp/'', trace := [Read_factory_settings]\<rparr>)
   \<and> load_3Dmodel demo_host ''/m/car.obj''
      ((demo_scene [''/m/car.txt''])\<lparr>objects := [demo_object (0, 0, 0) True]\<rparr>)
     = (Inl (FileNotFoundError ''/m/car.obj''),
        (demo_scene [''/m/car.txt''])\<lparr>objects := [demo_object (0, 0, 0) True]\<rparr>)"
proof -
  let ?s = "(demo_scene [''/m/car.txt''])\<lparr>objects := [demo_object (0, 0, 0) True]\<rparr>"
  have ext: "lower (snd (splitext ''/m/car.txt'')) = ''.txt''"
    by code_simp
  have ex: "path_exists ?s ''/m/car.txt''" "\<not> path_exists ?s ''/m/car.obj''"
    by (simp_all add: path_exists_def demo_scene_def)
  show ?thesis
    using load_3Dmodel_not_atomic [of ?s "''/m/car.txt''" demo_host]
          load_3Dmodel_not_atomic [of ?s "''/m/car.obj''" demo_host] ext ex
    by (simp add: demo_scene_def demo_host_def)
qed

section \<open>Properties of the lighting setup\<close>

lemma ident_lt_fresh: "ob \<in> set (objects s) \<Longrightarrow> ident ob < fresh_id s"
proof -
  have "x \<in> set xs \<Longrightarrow> x \<le> foldr max xs (0::nat)" for x xs
    by (induction xs) auto
  then show "ob \<in> set (objects s) \<Longrightarrow> ident ob < fresh_id s"
    unfolding fresh_id_def by (metis image_eqI le_imp_less_Suc set_map)
qed

lemma map_fresh_unchanged:
  "map (\<lambda>ob. if ident ob = fresh_id s then f ob else ob) (objects s) = objects s"
  by (rule map_idI) (use ident_lt_fresh in fastforce)

lemma objects_update_linked:
  "objects (update_object (fresh_id s) f (link_object ob s))
     = objects s @ [f (ob\<lparr>ident := fresh_id s\<rparr>)]"
  by (simp add: update_object_def link_object_def map_fresh_unchanged)

lemma objects_update_update_linked:
  "ident (f (ob\<lparr>ident := fresh_id s\<rparr>)) = fresh_id s \<Longrightarrow>
   objects (update_object (fresh_id s) g (update_object (fresh_id s) f (link_object ob s)))
     = objects s @ [g (f (ob\<lparr>ident := fresh_id s\<rparr>))]"
  by (simp add: update_object_def link_object_def map_fresh_unchanged)

lemma objects_diagonal_light:
  "objects (diagonal_light h (i, pos) s)
     = objects s @ [(new_object (''Diagonal_Light_'' @ str_nat (i + 1)) LIGHT (new_light_energy h))
                      \<lparr>ident := fresh_id s, location := pos, energy := 150\<rparr>]"
  by (simp add: diagonal_light_def Let_def objects_update_update_linked)

text \<open>
  Claim C4. Whatever the scene holds, \<open>setup_lights\<close> leaves the objects that were there as
  they are and appends exactly five lights: one at (0, 0, 2) with intensity 200, then four
  at (-2, -2, 2), (2, -2, 2), (-2, 2, 2) and (2, 2, 2) with intensity 150 each. These are the
  values in the scene the procedure returns, so none was changed after it was set.
\<close>

theorem setup_lights_adds_five:
  "take (length (objects s)) (objects (setup_lights h s)) = objects s
   \<and> length (objects (setup_lights h s)) = length (objects s) + 5
   \<and> map light_summary (drop (length (objects s)) (objects (setup_lights h s)))
       = [(LIGHT, (0, 0, 2), 200),
          (LIGHT, (-2, -2, 2), 150), (LIGHT, (2, -2, 2), 150),
          (LIGHT, (-2, 2, 2), 150), (LIGHT, (2, 2, 2), 150)]"
  by (simp add: setup_lights_def Let_def diagonal_positions_def objects_diagonal_light
        objects_update_update_linked light_summary_def new_object_def)

section \<open>Properties of orbit rendering\<close>

declare str_nat.simps [simp del]

lemma of_char_digit_char: "d < 10 \<Longrightarrow> (of_char (digit_char d) :: nat) = 48 + d"
  by (simp add: digit_char_def)

lemma digit_char_less: "x < 10 \<Longrightarrow> y < 10 \<Longrightarrow> digit_char x < digit_char y \<longleftrightarrow> x < y"
  by (simp add: less_char_def of_char_digit_char)

lemma digit_char_eq: "x < 10 \<Longrightarrow> y < 10 \<Longrightarrow> digit_char x = digit_char y \<longleftrightarrow> x = y"
  by (metis add_left_cancel of_char_digit_char)

lemma digit_char_0: "digit_char 0 = CHR ''0''"
  by code_simp

lemma str_nat_small: "n < 10 \<Longrightarrow> str_nat n = [digit_char n]"
  by (subst str_nat.simps) simp

lemma str_nat_two: "10 \<le> n \<Longrightarrow> n < 100 \<Longrightarrow> str_nat n = [digit_char (n div 10), digit_char (n mod 10)]"
  by (subst str_nat.simps) (simp add: str_nat_small)

lemma str_nat_three: "100 \<le> n \<Longrightarrow> n < 1000 \<Longrightarrow>
    str_nat n = [digit_char (n div 100), digit_char (n div 10 mod 10), digit_char (n mod 10)]"
proof -
  assume n: "100 \<le> n" "n < 1000"
  then have "10 \<le> n div 10" "n div 10 < 100" by auto
  then have "str_nat (n div 10) = [digit_char (n div 10 div 10), digit_char (n div 10 mod 10)]"
    by (rule str_nat_two)
  moreover have "n div 10 div 10 = n div 100" by (simp add: div_mult2_eq [symmetric])
  ultimately show ?thesis using n by (subst str_nat.simps) simp
qed

lemma format_03d_digits:
  assumes "0 \<le> a" "a < 1000"
  shows "format_03d a =
           [digit_char (nat a div 100), digit_char (nat a div 10 mod 10), digit_char (nat a mod 10)]"
proof -
  consider "nat a < 10" | "10 \<le> nat a" "nat a < 100" | "100 \<le> nat a" "nat a < 1000"
    using assms by linarith
  then show ?thesis
  proof cases
    case 1
    then show ?thesis using assms
      by (simp add: format_03d_def zfill_def str_nat_small digit_char_0 numeral_3_eq_3)
  next
    case 2
    then show ?thesis using assms
      by (simp add: format_03d_def zfill_def str_nat_two digit_char_0)
  next
    case 3
    then show ?thesis using assms
      by (simp add: format_03d_def zfill_def str_nat_three)
  qed
qed

lemma decimal_split: "(x::nat) = 100 * (x div 100) + 10 * (x div 10 mod 10) + x mod 10"
proof -
  have "x = 10 * (x div 10) + x mod 10" by simp
  moreover have "x div 10 = 10 * (x div 10 div 10) + x div 10 mod 10" by simp
  moreover have "x div 10 div 10 = x div 100" by (simp add: div_mult2_eq [symmetric])
  ultimately show ?thesis by linarith
qed

lemma decimal_lex:
  assumes "x < y" "y < (1000::nat)"
  shows "x div 100 < y div 100
      \<or> (x div 100 = y div 100 \<and> (x div 10 mod 10 < y div 10 mod 10
          \<or> (x div 10 mod 10 = y div 10 mod 10 \<and> x mod 10 < y mod 10)))"
proof -
  define a2 a1 a0 b2 b1 b0 where "a2 = x div 100" and "a1 = x div 10 mod 10" and "a0 = x mod 10"
    and "b2 = y div 100" and "b1 = y div 10 mod 10" and "b0 = y mod 10"
  have x: "x = 100 * a2 + 10 * a1 + a0" and y: "y = 100 * b2 + 10 * b1 + b0"
    unfolding a2_def a1_def a0_def b2_def b1_def b0_def by (rule decimal_split)+
  have b: "a1 < 10" "a0 < 10" "b1 < 10" "b0 < 10"
    unfolding a1_def a0_def b1_def b0_def by simp_all
  have "a2 < b2 \<or> (a2 = b2 \<and> (a1 < b1 \<or> (a1 = b1 \<and> a0 < b0)))"
    using assms(1) b unfolding x y by linarith
  then show ?thesis
    unfolding a2_def a1_def a0_def b2_def b1_def b0_def .
qed

lemma app_less: "xs < ys \<Longrightarrow> p @ xs < p @ (ys :: string)"
  by (induction p) auto

lemma less_app: "length xs = length ys \<Longrightarrow> xs < ys \<Longrightarrow> xs @ q < ys @ (q :: string)"
  by (induction xs ys rule: list_induct2) auto

lemma digits_less:
  assumes "x2 < 10" "y2 < 10" "x1 < 10" "y1 < 10" "x0 < 10" "y0 < (10::nat)"
    and "x2 < y2 \<or> (x2 = y2 \<and> (x1 < y1 \<or> (x1 = y1 \<and> x0 < y0)))"
  shows "[digit_char x2, digit_char x1, digit_char x0] < [digit_char y2, digit_char y1, digit_char y0]"
  using assms by (auto simp: digit_char_less digit_char_eq)

lemma frame_name_less:
  assumes "0 \<le> a" "a < b" "b < 1000"
  shows "frame_name a < frame_name b"
proof -
  let ?x = "nat a" and ?y = "nat b"
  have xy: "?x < ?y" "?y < 1000" using assms by auto
  have x1000: "?x < 1000" using xy by linarith
  have bounds: "?x div 100 < 10" "?y div 100 < 10" "?x div 10 mod 10 < 10" "?y div 10 mod 10 < 10"
      "?x mod 10 < 10" "?y mod 10 < 10"
    using xy(2) x1000 by simp_all
  have d: "format_03d a < format_03d b"
    using digits_less [OF bounds decimal_lex [OF xy]] assms by (simp only: format_03d_digits)
  have len: "length (format_03d a) = length (format_03d b)"
    using assms by (simp add: format_03d_digits)
  show ?thesis
    unfolding frame_name_def by (intro app_less less_app len d)
qed

lemma py_range_divisor:
  assumes "0 < step" "step dvd 360"
  shows "py_range 0 360 step = map (\<lambda>k. int k * step) [0..<nat (360 div step)]"
proof -
  obtain k where k: "360 = k * step" using assms by (auto simp: dvd_def mult.commute)
  have "(360 + step - 1) div step = (step - 1 + k * step) div step"
    using k by (simp add: algebra_simps)
  also have "\<dots> = (step - 1) div step + k"
    using assms by simp
  also have "\<dots> = k" using assms by simp
  also have "\<dots> = 360 div step" using assms by (simp add: k)
  finally have "(360 + step - 1) div step = 360 div step" .
  then show ?thesis using assms by (simp add: py_range_def)
qed

lemma find_update_same:
  assumes "\<And>ob. ident (f ob) = ident ob"
  shows "find (\<lambda>ob. ident ob = i) (map (\<lambda>ob. if ident ob = i then f ob else ob) xs)
           = map_option f (find (\<lambda>ob. ident ob = i) xs)"
  using assms by (induction xs) auto

lemma get_object_update:
  "(\<And>ob. ident (f ob) = ident ob) \<Longrightarrow>
     get_object (update_object i f s) i = map_option f (get_object s i)"
  by (simp add: get_object_def update_object_def find_update_same)

lemma find_fresh_none: "find (\<lambda>ob. ident ob = fresh_id s) (objects s) = None"
  by (auto simp: find_None_iff dest!: ident_lt_fresh)

lemma find_append_none: "find P xs = None \<Longrightarrow> find P (xs @ ys) = find P ys"
  by (induction xs) (auto split: if_splits)

lemma get_object_link:
  "get_object (link_object ob s) (fresh_id s) = Some (ob\<lparr>ident := fresh_id s\<rparr>)"
  by (simp add: get_object_def link_object_def find_append_none find_fresh_none)

lemma render_angle_step:
  assumes "camera s = Some cam" "get_object s cam = Some ob"
  shows "trace (render_angle h out d cam a s) = trace s @
           [Render_still (path_join out (frame_name a))
              (Some (ob\<lparr>location := (d * cos (radians (of_int a)), d * sin (radians (of_int a)), 0),
                         rotation := track_euler h
                           (vsub vzero (d * cos (radians (of_int a)), d * sin (radians (of_int a)), 0))\<rparr>)),
            Print (Msg_angle_done a (path_join out (frame_name a)))]"
    and "camera (render_angle h out d cam a s) = Some cam"
    and "get_object (render_angle h out d cam a s) cam =
           Some (ob\<lparr>location := (d * cos (radians (of_int a)), d * sin (radians (of_int a)), 0),
                     rotation := track_euler h
                       (vsub vzero (d * cos (radians (of_int a)), d * sin (radians (of_int a)), 0))\<rparr>)"
proof -
  let ?P = "(d * cos (radians (of_int a)), d * sin (radians (of_int a)), 0 :: real)"
  let ?s2 = "update_object cam (\<lambda>ob. ob\<lparr>rotation := track_euler h (vsub vzero ?P)\<rparr>)
               (update_object cam (\<lambda>ob. ob\<lparr>location := ?P\<rparr>) s)"
  have g: "get_object ?s2 cam = Some (ob\<lparr>location := ?P, rotation := track_euler h (vsub vzero ?P)\<rparr>)"
    using assms(2) by (simp add: get_object_update)
  have c: "camera ?s2 = Some cam" "trace ?s2 = trace s"
    using assms(1) by (simp_all add: update_object_def)
  have go: "get_object (x\<lparr>filepath := p\<rparr>) = get_object x"
       "get_object (x\<lparr>files := fs\<rparr>) = get_object x"
       "get_object (x\<lparr>trace := tr\<rparr>) = get_object x" for x p fs tr
    by (simp_all add: get_object_def fun_eq_iff)
  show "trace (render_angle h out d cam a s) = trace s @
           [Render_still (path_join out (frame_name a))
              (Some (ob\<lparr>location := ?P, rotation := track_euler h (vsub vzero ?P)\<rparr>)),
            Print (Msg_angle_done a (path_join out (frame_name a)))]"
    using g c by (simp add: render_angle_def Let_def render_still_def print_def emit_def go)
  show "camera (render_angle h out d cam a s) = Some cam"
    using c by (simp add: render_angle_def Let_def render_still_def print_def emit_def)
  show "get_object (render_angle h out d cam a s) cam =
           Some (ob\<lparr>location := ?P, rotation := track_euler h (vsub vzero ?P)\<rparr>)"
    using g by (simp add: render_angle_def Let_def render_still_def print_def emit_def go)
qed

lemma fold_render_angle:
  assumes "camera s = Some cam" "get_object s cam = Some ob"
  shows "trace (fold (render_angle h out d cam) angles s) = trace s @
           concat (map (\<lambda>a.
             [Render_still (path_join out (frame_name a))
                (Some (ob\<lparr>location := (d * cos (radians (of_int a)), d * sin (radians (of_int a)), 0),
                           rotation := track_euler h
                             (vsub vzero (d * cos (radians (of_int a)), d * sin (radians (of_int a)), 0))\<rparr>)),
              Print (Msg_angle_done a (path_join out (frame_name a)))]) angles)"
  using assms
proof (induction angles arbitrary: s ob)
  case Nil
  then show ?case by simp
next
  case (Cons a angles)
  note step = render_angle_step [OF Cons.prems, of h out d a]
  show ?case
    by (simp add: Cons.IH [OF step(2) step(3)] step(1))
qed

lemma rendered_paths_frames:
  "rendered_paths (concat (map (\<lambda>a. [Render_still (p a) (c a), Print (m a)]) angles)) = map p angles"
  by (induction angles) (simp_all add: rendered_paths_def)

lemma rendered_cameras_frames:
  "rendered_cameras (concat (map (\<lambda>a. [Render_still (p a) (c a), Print (m a)]) angles)) = map c angles"
  by (induction angles) (simp_all add: rendered_cameras_def)

lemma rendered_append [simp]:
  "rendered_paths (xs @ ys) = rendered_paths xs @ rendered_paths ys"
  "rendered_cameras (xs @ ys) = rendered_cameras xs @ rendered_cameras ys"
  by (simp_all add: rendered_paths_def rendered_cameras_def)

lemma render_views_trace:
  assumes "angle_step \<noteq> 0"
  shows "fst (render_views h out angle_step d s) = Inr ()"
    and "trace (snd (render_views h out angle_step d s)) =
      trace s @ (if path_exists s out then [] else [Makedirs out]) @
      concat (map (\<lambda>a.
        [Render_still (path_join out (frame_name a))
           (Some ((new_object ''Camera'' CAMERA 0)
              \<lparr>ident := fresh_id (if \<not> path_exists s out then makedirs out s else s),
               location := (d * cos (radians (of_int a)), d * sin (radians (of_int a)), 0),
               rotation := track_euler h
                 (vsub vzero (d * cos (radians (of_int a)), d * sin (radians (of_int a)), 0))\<rparr>)),
         Print (Msg_angle_done a (path_join out (frame_name a)))]) (py_range 0 360 angle_step))"
proof -
  let ?s1 = "if \<not> path_exists s out then makedirs out s else s"
  let ?s3 = "(link_object (new_object ''Camera'' CAMERA 0) ?s1)\<lparr>camera := Some (fresh_id ?s1)\<rparr>"
  have c: "camera ?s3 = Some (fresh_id ?s1)" by simp
  have g: "get_object ?s3 (fresh_id ?s1) = Some ((new_object ''Camera'' CAMERA 0)\<lparr>ident := fresh_id ?s1\<rparr>)"
    using get_object_link [of "new_object ''Camera'' CAMERA 0" ?s1]
    by (simp add: get_object_def)
  have t: "trace ?s3 = trace s @ (if path_exists s out then [] else [Makedirs out])"
    by (simp add: link_object_def makedirs_def emit_def)
  show "fst (render_views h out angle_step d s) = Inr ()"
    using assms by (simp add: render_views_def Let_def)
  have "snd (render_views h out angle_step d s)
          = fold (render_angle h out d (fresh_id ?s1)) (py_range 0 360 angle_step) ?s3"
    using assms by (simp add: render_views_def Let_def)
  then show "trace (snd (render_views h out angle_step d s)) =
      trace s @ (if path_exists s out then [] else [Makedirs out]) @
      concat (map (\<lambda>a.
        [Render_still (path_join out (frame_name a))
           (Some ((new_object ''Camera'' CAMERA 0)
              \<lparr>ident := fresh_id ?s1,
               location := (d * cos (radians (of_int a)), d * sin (radians (of_int a)), 0),
               rotation := track_euler h
                 (vsub vzero (d * cos (radians (of_int a)), d * sin (radians (of_int a)), 0))\<rparr>)),
         Print (Msg_angle_done a (path_join out (frame_name a)))]) (py_range 0 360 angle_step))"
    using fold_render_angle [OF c g, of h out d "py_range 0 360 angle_step"] t
    by simp
qed

lemma divisor_angles:
  assumes "0 < step" "step dvd (360::int)"
  shows "sorted_wrt (<) (map (\<lambda>k. int k * step) [0..<nat (360 div step)])"
    and "list_all (\<lambda>a. 0 \<le> a \<and> a < 360) (map (\<lambda>k. int k * step) [0..<nat (360 div step)])"
proof -
  show "sorted_wrt (<) (map (\<lambda>k. int k * step) [0..<nat (360 div step)])"
    using assms(1) by (simp add: sorted_wrt_map sorted_wrt_iff_nth_less)
  have "int k * step < 360" if "k < nat (360 div step)" for k
  proof -
    have "int k + 1 \<le> 360 div step" using that by linarith
    then have "(int k + 1) * step \<le> (360 div step) * step"
      using assms(1) by (simp add: mult_right_mono)
    also have "\<dots> = 360" using assms(2) by simp
    finally show ?thesis using assms(1) by (simp add: algebra_simps)
  qed
  then show "list_all (\<lambda>a. 0 \<le> a \<and> a < 360) (map (\<lambda>k. int k * step) [0..<nat (360 div step)])"
    using assms(1) by (simp add: list_all_iff)
qed

text \<open>
  Claim C2. For a positive step that divides 360, the loop of \<open>render_views\<close> runs over the
  angles 0, step, 2 step, ... below 360, in ascending order; the procedure first creates
  the output directory when it is absent, then renders exactly 360 / step frames, in that
  order, to the files \<^verbatim>\<open>angle_ddd.png\<close> of the output directory, where \<^verbatim>\<open>ddd\<close> are the three
  decimal digits of the angle; the file names increase strictly in the order of strings.
\<close>

theorem render_views_frames:
  assumes "0 < angle_step" and "angle_step dvd 360"
  shows "let angles = map (\<lambda>k. int k * angle_step) [0..<nat (360 div angle_step)];
             s' = snd (render_views h output_dir angle_step distance s)
         in fst (render_views h output_dir angle_step distance s) = Inr ()
          \<and> py_range 0 360 angle_step = angles
          \<and> sorted_wrt (<) angles
          \<and> list_all (\<lambda>a. 0 \<le> a \<and> a < 360) angles
          \<and> int (length angles) = 360 div angle_step
          \<and> (\<exists>rest. trace s' = trace s
                        @ (if path_exists s output_dir then [] else [Makedirs output_dir]) @ rest
                 \<and> rendered_paths rest = map (\<lambda>a. path_join output_dir (frame_name a)) angles)
          \<and> map frame_name angles
              = map (\<lambda>a. ''angle_''
                       @ [digit_char (nat a div 100), digit_char (nat a div 10 mod 10),
                          digit_char (nat a mod 10)]
                       @ ''.png'') angles
          \<and> sorted_wrt (<) (map frame_name angles)"
proof -
  define angles where "angles = map (\<lambda>k. int k * angle_step) [0..<nat (360 div angle_step)]"
  have range: "py_range 0 360 angle_step = angles"
    unfolding angles_def by (rule py_range_divisor [OF assms])
  have sorted: "sorted_wrt (<) angles" and bounds: "list_all (\<lambda>a. 0 \<le> a \<and> a < 360) angles"
    unfolding angles_def by (rule divisor_angles [OF assms])+
  have len: "int (length angles) = 360 div angle_step"
    using assms by (simp add: angles_def pos_imp_zdiv_nonneg_iff)
  have nz: "angle_step \<noteq> 0" using assms by simp
  have tr: "\<exists>rest. trace (snd (render_views h output_dir angle_step distance s)) = trace s
                        @ (if path_exists s output_dir then [] else [Makedirs output_dir]) @ rest
                 \<and> rendered_paths rest = map (\<lambda>a. path_join output_dir (frame_name a)) angles"
  proof -
    let ?rest = "concat (map (\<lambda>a.
        [Render_still (path_join output_dir (frame_name a))
           (Some ((new_object ''Camera'' CAMERA 0)
              \<lparr>ident := fresh_id (if \<not> path_exists s output_dir then makedirs output_dir s else s),
               location := (distance * cos (radians (of_int a)), distance * sin (radians (of_int a)), 0),
               rotation := track_euler h
                 (vsub vzero (distance * cos (radians (of_int a)),
                    distance * sin (radians (of_int a)), 0))\<rparr>)),
         Print (Msg_angle_done a (path_join output_dir (frame_name a)))]) angles)"
    have 1: "trace (snd (render_views h output_dir angle_step distance s)) = trace s
               @ (if path_exists s output_dir then [] else [Makedirs output_dir]) @ ?rest"
      using render_views_trace(2) [OF nz, of h output_dir distance s] range by simp
    have 2: "rendered_paths ?rest = map (\<lambda>a. path_join output_dir (frame_name a)) angles"
      by (rule rendered_paths_frames)
    show ?thesis using 1 2 by blast
  qed
  have names: "frame_name a = ''angle_''
                       @ [digit_char (nat a div 100), digit_char (nat a div 10 mod 10),
                          digit_char (nat a mod 10)]
                       @ ''.png''" if "a \<in> set angles" for a
  proof -
    have "0 \<le> a" "a < 1000" using bounds that by (auto simp: list_all_iff)
    then show ?thesis by (simp add: frame_name_def format_03d_digits)
  qed
  have mono: "sorted_wrt (<) (map frame_name angles)"
    unfolding sorted_wrt_map
  proof (rule sorted_wrt_mono_rel [OF _ sorted])
    fix a b assume "a \<in> set angles" "b \<in> set angles" "a < b"
    then have "0 \<le> a" "b < 1000" using bounds by (auto simp: list_all_iff)
    then show "frame_name a < frame_name b" using \<open>a < b\<close> by (intro frame_name_less)
  qed
  show ?thesis
    unfolding Let_def angles_def [symmetric]
    using render_views_trace(1) [OF nz] range sorted bounds len tr names mono
    by (intro conjI) (auto intro: map_cong)
qed

theorem render_views_frames_witness:
  "(0::int) < 120 \<and> (120::int) dvd 360
   \<and> fst (render_views demo_host ''/out'' 120 5 (demo_scene [])) = Inr ()
   \<and> py_range 0 360 120 = [0, 120, 240]
   \<and> rendered_paths (trace (snd (render_views demo_host ''/out'' 120 5 (demo_scene []))))
       = [''/out/angle_000.png'', ''/out/angle_120.png'', ''/out/angle_240.png'']
   \<and> hd (trace (snd (render_views demo_host ''/out'' 120 5 (demo_scene [])))) = Makedirs ''/out''"
proof -
  have h: "(0::int) < 120" "(120::int) dvd 360" by simp_all
  have angles: "map (\<lambda>k. int k * 120) [0..<nat (360 div 120)] = [0, 120, 240]"
    by code_simp
  have names: "map (\<lambda>a. path_join ''/out'' (frame_name a)) [0, 120, 240]
                 = [''/out/angle_000.png'', ''/out/angle_120.png'', ''/out/angle_240.png'']"
    by code_simp
  have ex: "\<not> path_exists (demo_scene []) ''/out''" "trace (demo_scene []) = []"
    by (simp_all add: path_exists_def demo_scene_def)
  note inst = render_views_frames [OF h, of demo_host "''/out''" 5 "demo_scene []",
                unfolded Let_def angles names]
  from inst obtain rest where
    rest: "trace (snd (render_views demo_host ''/out'' 120 5 (demo_scene [])))
             = [Makedirs ''/out''] @ rest"
          "rendered_paths rest
             = [''/out/angle_000.png'', ''/out/angle_120.png'', ''/out/angle_240.png'']"
    using ex by auto
  show ?thesis
    using inst rest by (simp add: rendered_paths_def)
qed

text \<open>
  Claim C8. Every render call of \<open>render_views\<close> sees the camera at
  (d cos \<theta>, d sin \<theta>, 0), where \<theta> is the angle of that turn of the loop in radians and d the
  distance, with the rotation the host computes for the direction from that position to
  the origin.
\<close>

theorem render_views_camera_positions:
  "map (map_option (\<lambda>ob. (location ob, rotation ob)))
       (rendered_cameras (trace (snd (render_views h output_dir angle_step distance s))))
     = map (map_option (\<lambda>ob. (location ob, rotation ob))) (rendered_cameras (trace s))
       @ map (\<lambda>angle.
               let theta = real_of_int angle * pi / 180;
                   x = distance * cos theta;
                   y = distance * sin theta
               in Some ((x, y, 0), track_euler h (- x, - y, 0)))
           (py_range 0 360 angle_step)"
proof (cases "angle_step = 0")
  case True
  have "rendered_cameras (if path_exists s output_dir then [] else [Makedirs output_dir]) = []"
    by (simp add: rendered_cameras_def)
  then show ?thesis
    using True
    by (simp add: render_views_def Let_def py_range_def link_object_def makedirs_def emit_def
          rendered_cameras_def)
next
  case False
  have none: "rendered_cameras (if path_exists s output_dir then [] else [Makedirs output_dir]) = []"
    by (simp add: rendered_cameras_def)
  show ?thesis
    unfolding render_views_trace(2) [OF False]
    by (simp add: none rendered_cameras_frames radians_def vzero_def Let_def comp_def)
qed

section \<open>Properties of recentering\<close>

lemma center_of_corners:
  "vdiv (foldl vadd vzero (map (\<lambda>v. vadd loc (mat_vec L v)) (corners lo hi))) 8
     = vadd loc (mat_vec L (vdiv (vadd lo hi) 2))"
proof -
  obtain r1 r2 r3 where L: "L = (r1, r2, r3)" by (cases L)
  obtain a b c where r1: "r1 = (a, b, c)" by (cases r1)
  obtain d e f where r2: "r2 = (d, e, f)" by (cases r2)
  obtain g h i where r3: "r3 = (g, h, i)" by (cases r3)
  obtain x0 y0 z0 where lo: "lo = (x0, y0, z0)" by (cases lo)
  obtain x1 y1 z1 where hi: "hi = (x1, y1, z1)" by (cases hi)
  obtain l1 l2 l3 where loc: "loc = (l1, l2, l3)" by (cases loc)
  show ?thesis
    unfolding L r1 r2 r3 lo hi loc
    by (simp add: corners_def vzero_def field_simps)
qed

lemma mat_vec_vadd: "mat_vec A (vadd p q) = vadd (mat_vec A p) (mat_vec A q)"
proof -
  obtain r1 r2 r3 where A: "A = (r1, r2, r3)" by (cases A)
  obtain a b c where r1: "r1 = (a, b, c)" by (cases r1)
  obtain d e f where r2: "r2 = (d, e, f)" by (cases r2)
  obtain g h i where r3: "r3 = (g, h, i)" by (cases r3)
  show ?thesis
    unfolding A r1 r2 r3 by (cases p; cases q) (simp add: algebra_simps)
qed

lemma mat_vec_vsub: "mat_vec A (vsub p q) = vsub (mat_vec A p) (mat_vec A q)"
proof -
  obtain r1 r2 r3 where A: "A = (r1, r2, r3)" by (cases A)
  obtain a b c where r1: "r1 = (a, b, c)" by (cases r1)
  obtain d e f where r2: "r2 = (d, e, f)" by (cases r2)
  obtain g h i where r3: "r3 = (g, h, i)" by (cases r3)
  show ?thesis
    unfolding A r1 r2 r3 by (cases p; cases q) (simp add: algebra_simps)
qed

lemma mat_vec_mat_mul: "mat_vec (mat_mul A B) v = mat_vec A (mat_vec B v)"
proof -
  obtain r1 r2 r3 where A: "A = (r1, r2, r3)" by (cases A)
  obtain a b c where r1: "r1 = (a, b, c)" by (cases r1)
  obtain d e f where r2: "r2 = (d, e, f)" by (cases r2)
  obtain g h i where r3: "r3 = (g, h, i)" by (cases r3)
  obtain q1 q2 q3 where B: "B = (q1, q2, q3)" by (cases B)
  obtain a' b' c' where q1: "q1 = (a', b', c')" by (cases q1)
  obtain d' e' f' where q2: "q2 = (d', e', f')" by (cases q2)
  obtain g' h' i' where q3: "q3 = (g', h', i')" by (cases q3)
  show ?thesis
    unfolding A r1 r2 r3 B q1 q2 q3
    by (cases v) (simp add: mat_mul_def col_def algebra_simps)
qed

text \<open>
  \<^verbatim>\<open>matrix_world\<close> is an affine map, with the linear part \<open>world_linear\<close>, so the centre of
  the eight transformed corners is the transformed centre of the local box.
\<close>

lemma matrix_world_affine:
  "matrix_world ob v = vadd (matrix_world ob (0, 0, 0)) (mat_vec (world_linear ob) v)"
proof -
  have z: "mat_vec L (0, 0, 0) = (0, 0, 0)" for L
    by (cases L rule: prod_cases3, cases "fst L"; cases "fst (snd L)"; cases "snd (snd L)") auto
  have a: "vadd p (0, 0, 0) = p" "vadd (vadd p q) r = vadd p (vadd q r)" for p q r
    by (cases p; cases q; cases r; simp)+
  show ?thesis
    by (cases "parent ob")
       (auto simp: matrix_world_def world_linear_def matrix_basis_def z a mat_vec_vadd
          mat_vec_mat_mul)
qed

lemma bbox_center_eq:
  "bbox_center ob
     = matrix_world ob (vdiv (vadd (bb_min (verts ob)) (bb_max (verts ob))) 2)"
proof -
  have "bbox_center ob
          = vdiv (foldl vadd vzero
              (map (\<lambda>v. vadd (matrix_world ob (0, 0, 0)) (mat_vec (world_linear ob) v))
                 (corners (bb_min (verts ob)) (bb_max (verts ob))))) 8"
    unfolding bbox_center_def bound_box_def
    by (rule arg_cong [where f = "\<lambda>xs. vdiv (foldl vadd vzero xs) 8"], rule map_cong [OF refl])
       (rule matrix_world_affine)
  also have "\<dots> = vadd (matrix_world ob (0, 0, 0))
                     (mat_vec (world_linear ob)
                        (vdiv (vadd (bb_min (verts ob)) (bb_max (verts ob))) 2))"
    by (rule center_of_corners)
  also have "\<dots> = matrix_world ob (vdiv (vadd (bb_min (verts ob)) (bb_max (verts ob))) 2)"
    by (rule matrix_world_affine [symmetric])
  finally show ?thesis .
qed

lemma vadd_vsub_cancel: "vadd (vsub p (vadd p q)) q = (0, 0, 0)"
  by (cases p; cases q) simp

lemma move_bbox_to_origin_result:
  assumes "get_object s obj = Some ob"
  shows "fst (move_bbox_to_origin obj s) = Inr ()"
    and "get_object (snd (move_bbox_to_origin obj s)) obj
           = Some (ob\<lparr>location := vsub (location ob) (bbox_center ob)\<rparr>)"
  using assms by (simp_all add: move_bbox_to_origin_def get_object_update)

text \<open>
  Where the centre is after the move: at the origin for an object without a parent, and
  for an object with a parent at the old centre minus its image under the inherited linear
  part, because the centre is measured in world space and subtracted from the location,
  which is relative to the parent.
\<close>

lemma bbox_center_after_move:
  "bbox_center (ob\<lparr>location := vsub (location ob) (bbox_center ob)\<rparr>)
     = (case parent ob of
          None \<Rightarrow> (0, 0, 0)
        | Some (A, b) \<Rightarrow> vsub (bbox_center ob) (mat_vec A (bbox_center ob)))"
proof -
  define m where "m = mat_vec (linear_part ob) (vdiv (vadd (bb_min (verts ob)) (bb_max (verts ob))) 2)"
  define c where "c = bbox_center ob"
  let ?ob' = "ob\<lparr>location := vsub (location ob) c\<rparr>"
  have l: "linear_part ?ob' = linear_part ob" by (simp add: linear_part_def)
  show ?thesis
  proof (cases "parent ob")
    case None
    then have c_eq: "c = vadd (location ob) m"
      by (simp add: c_def m_def bbox_center_eq matrix_world_def matrix_basis_def)
    have "bbox_center ?ob' = vadd (vsub (location ob) c) m"
      using None by (simp add: bbox_center_eq matrix_world_def matrix_basis_def l m_def)
    then show ?thesis
      using None unfolding c_def [symmetric] by (simp add: c_eq vadd_vsub_cancel)
  next
    case (Some P)
    obtain A b where P: "P = (A, b)" by (cases P)
    have c_eq: "c = vadd b (mat_vec A (vadd (location ob) m))"
      using Some P by (simp add: c_def m_def bbox_center_eq matrix_world_def matrix_basis_def)
    have "bbox_center ?ob' = vadd b (mat_vec A (vadd (vsub (location ob) c) m))"
      using Some P by (simp add: bbox_center_eq matrix_world_def matrix_basis_def l m_def)
    also have "\<dots> = vsub (vadd b (mat_vec A (vadd (location ob) m))) (mat_vec A c)"
    proof -
      have "vadd (vsub p c) m = vsub (vadd p m) c" for p
        by (cases p; cases c; cases m) simp
      moreover have "vadd b (vsub p q) = vsub (vadd b p) q" for p q
        by (cases b; cases p; cases q) simp
      ultimately show ?thesis by (simp add: mat_vec_vsub)
    qed
    finally show ?thesis
      using Some P unfolding c_def [symmetric] by (simp add: c_eq [symmetric])
  qed
qed

lemma move_bbox_to_origin_parentless:
  assumes "get_object s obj = Some ob" and "parent ob = None"
  shows "\<exists>ob'. get_object (snd (move_bbox_to_origin obj s)) obj = Some ob'
           \<and> location ob' = vsub (location ob) (bbox_center ob)
           \<and> bbox_center ob' = (0, 0, 0)"
  using assms move_bbox_to_origin_result(2) [OF assms(1)] bbox_center_after_move [of ob]
  by simp

lemmas demo_eval =
  mesh_scene_def child_scene_def demo_scene_def demo_object_def child_object_def
  get_object_def update_object_def
  transform_apply_def apply_transform_def join_def emit_def print_def
  linear_part_def mat_mul_def diag_def col_def mat_id_def vzero_def vones_def
  matrix_basis_def matrix_world_def world_linear_def to_local_def mat_inv_def det3_def
  world_scale_def vnorm_def
  dimensions_def max3_def bb_min_def bb_max_def lowest_def highest_def Let_def

text \<open>
  Claim C3. The claim is that after \<open>move_bbox_to_origin\<close> the centre of the eight
  world-space bounding-box corners of every object is the origin. The procedure measures
  the centre in world space and subtracts it from the object's location, which is relative
  to the parent. For an object without a parent the two spaces agree and the centre lands
  on the origin (\<open>move_bbox_to_origin_parentless\<close>); under a parent that rotates or scales,
  it lands elsewhere (\<open>bbox_center_after_move\<close>). For the mesh at (1, 0, 0) with corners
  (0, 0, 0) and (1, 2, 4): without a parent the centre (3/2, 1, 2) moves to the origin;
  as the child of an object that doubles lengths, the centre (3, 2, 4) moves to
  (-3, -2, -4).
\<close>

theorem move_bbox_to_origin_misses_under_parent:
  "bbox_center (demo_object (1, 0, 0) True) = (3 / 2, 1, 2)
   \<and> move_bbox_to_origin 0 (mesh_scene True)
       = (Inr (), (mesh_scene True)\<lparr>objects := [demo_object (- 1 / 2, - 1, - 2) True]\<rparr>)
   \<and> bbox_center (demo_object (- 1 / 2, - 1, - 2) True) = (0, 0, 0)
   \<and> bbox_center (child_object (1, 0, 0) True) = (3, 2, 4)
   \<and> move_bbox_to_origin 0 (child_scene True)
       = (Inr (), (child_scene True)\<lparr>objects := [child_object (- 2, - 2, - 4) True]\<rparr>)
   \<and> bbox_center (child_object (- 2, - 2, - 4) True) = (- 3, - 2, - 4)"
  by (simp add: move_bbox_to_origin_def bbox_center_def bound_box_def corners_def demo_eval)

section \<open>Properties of size normalization\<close>

lemma Max_mult_left:
  assumes "finite S" "S \<noteq> {}"
  shows "Max ((*) k ` S) = (if 0 \<le> k then k * Max S else k * Min (S :: real set))"
    and "Min ((*) k ` S) = (if 0 \<le> k then k * Min S else k * Max S)"
proof -
  show "Max ((*) k ` S) = (if 0 \<le> k then k * Max S else k * Min S)"
  proof (cases "0 \<le> k")
    case True
    then have "mono ((*) k)" by (simp add: mono_def mult_left_mono)
    then show ?thesis using assms True by (simp add: mono_Max_commute)
  next
    case False
    have "Max ((*) k ` S) = k * Min S"
    proof (rule Max_eqI)
      show "finite ((*) k ` S)" using assms by simp
      show "y \<le> k * Min S" if "y \<in> (*) k ` S" for y
        using that False assms by (auto simp: mult_left_mono_neg)
      show "k * Min S \<in> (*) k ` S" using assms by (intro imageI Min_in)
    qed
    then show ?thesis using False by simp
  qed
  show "Min ((*) k ` S) = (if 0 \<le> k then k * Min S else k * Max S)"
  proof (cases "0 \<le> k")
    case True
    then have "mono ((*) k)" by (simp add: mono_def mult_left_mono)
    then show ?thesis using assms True by (simp add: mono_Min_commute)
  next
    case False
    have "Min ((*) k ` S) = k * Max S"
    proof (rule Min_eqI)
      show "finite ((*) k ` S)" using assms by simp
      show "k * Max S \<le> y" if "y \<in> (*) k ` S" for y
        using that False assms by (auto simp: mult_left_mono_neg)
      show "k * Max S \<in> (*) k ` S" using assms by (intro imageI Max_in)
    qed
    then show ?thesis using False by simp
  qed
qed

lemma extent_scaled:
  "highest (map ((*) k) xs) - lowest (map ((*) k) xs) = \<bar>k\<bar> * (highest xs - lowest xs)"
proof (cases "xs = []")
  case True
  then show ?thesis by (simp add: highest_def lowest_def)
next
  case False
  then have S: "finite (set xs)" "set xs \<noteq> {}" by simp_all
  show ?thesis
    using False Max_mult_left [OF S, of k]
    by (simp add: highest_def lowest_def algebra_simps abs_if)
qed

lemma find_map_same_ident:
  assumes "\<And>ob. ident (g ob) = ident ob"
  shows "find (\<lambda>ob. ident ob = i) (map g xs) = map_option g (find (\<lambda>ob. ident ob = i) xs)"
  using assms by (induction xs) auto

lemma get_object_fields [simp]:
  "get_object (s\<lparr>active := a\<rparr>) = get_object s"
  "get_object (s\<lparr>trace := tr\<rparr>) = get_object s"
  "get_object (s\<lparr>files := fs\<rparr>) = get_object s"
  "get_object (s\<lparr>filepath := p\<rparr>) = get_object s"
  "get_object (s\<lparr>camera := c\<rparr>) = get_object s"
  "get_object (emit e s) = get_object s"
  "get_object (print m s) = get_object s"
  by (simp_all add: get_object_def fun_eq_iff emit_def print_def)

lemma get_object_transform_apply:
  "get_object (transform_apply l r sc s) i
     = map_option (\<lambda>ob. if selected ob \<and> otype ob = MESH then apply_transform l r sc ob else ob)
         (get_object s i)"
proof -
  have "ident (if selected x \<and> otype x = MESH then apply_transform l r sc x else x) = ident x" for x
    by (simp add: apply_transform_def Let_def)
  then show ?thesis
    by (simp add: transform_apply_def get_object_def emit_def find_map_same_ident)
qed

lemma mat_mul_assoc: "mat_mul A (mat_mul B C) = mat_mul (mat_mul A B) C"
proof -
  obtain r1 r2 r3 where A: "A = (r1, r2, r3)" by (cases A)
  obtain a b c where r1: "r1 = (a, b, c)" by (cases r1)
  obtain d e f where r2: "r2 = (d, e, f)" by (cases r2)
  obtain g h i where r3: "r3 = (g, h, i)" by (cases r3)
  obtain q1 q2 q3 where B: "B = (q1, q2, q3)" by (cases B)
  obtain a' b' c' where q1: "q1 = (a', b', c')" by (cases q1)
  obtain d' e' f' where q2: "q2 = (d', e', f')" by (cases q2)
  obtain g' h' i' where q3: "q3 = (g', h', i')" by (cases q3)
  obtain p1 p2 p3 where C: "C = (p1, p2, p3)" by (cases C)
  obtain a'' b'' c'' where p1: "p1 = (a'', b'', c'')" by (cases p1)
  obtain d'' e'' f'' where p2: "p2 = (d'', e'', f'')" by (cases p2)
  obtain g'' h'' i'' where p3: "p3 = (g'', h'', i'')" by (cases p3)
  show ?thesis
    unfolding A r1 r2 r3 B q1 q2 q3 C p1 p2 p3
    by (simp add: mat_mul_def col_def algebra_simps)
qed

text \<open>
  The scale the host reads off \<^verbatim>\<open>matrix_world\<close> is the absolute scale of the object times
  the lengths of its axes in world space, which the object's scale does not enter.
\<close>

lemma world_linear_eq: "world_linear ob = mat_mul (world_axes ob) (diag (scale ob))"
  by (cases "parent ob") (auto simp: world_linear_def world_axes_def linear_part_def mat_mul_assoc)

lemma vnorm_smul: "vnorm (smul k v) = \<bar>k\<bar> * vnorm v"
proof -
  obtain x y z where v: "v = (x, y, z)" by (cases v)
  have "k * x * (k * x) + k * y * (k * y) + k * z * (k * z) = k\<^sup>2 * (x * x + y * y + z * z)"
    by (simp add: power2_eq_square algebra_simps)
  then show ?thesis
    by (simp add: vnorm_def v real_sqrt_mult)
qed

lemma vnorm_nonneg: "0 \<le> vnorm v"
  by (cases v) (simp add: vnorm_def)

lemma col_mat_mul_diag:
  "col (mat_mul M (diag (a, b, c))) 0 = smul a (col M 0)"
  "col (mat_mul M (diag (a, b, c))) 1 = smul b (col M 1)"
  "col (mat_mul M (diag (a, b, c))) 2 = smul c (col M 2)"
proof -
  obtain r1 r2 r3 where M: "M = (r1, r2, r3)" by (cases M)
  obtain a' b' c' where r1: "r1 = (a', b', c')" by (cases r1)
  obtain d e f where r2: "r2 = (d, e, f)" by (cases r2)
  obtain g h i where r3: "r3 = (g, h, i)" by (cases r3)
  show "col (mat_mul M (diag (a, b, c))) 0 = smul a (col M 0)"
       "col (mat_mul M (diag (a, b, c))) 1 = smul b (col M 1)"
       "col (mat_mul M (diag (a, b, c))) 2 = smul c (col M 2)"
    unfolding M r1 r2 r3 by (simp_all add: mat_mul_def diag_def col_def)
qed

lemma world_scale_eq: "world_scale ob = vmul (abs3 (scale ob)) (axis_lengths ob)"
proof -
  obtain a b c where k: "scale ob = (a, b, c)" by (cases "scale ob")
  show ?thesis
    unfolding world_scale_def world_linear_eq k col_mat_mul_diag vnorm_smul abs3_def
      axis_lengths_def
    by simp
qed

lemma axis_lengths_fields [simp]:
  "axis_lengths (ob\<lparr>scale := k\<rparr>) = axis_lengths ob"
  "axis_lengths (ob\<lparr>verts := vs\<rparr>) = axis_lengths ob"
  "axis_lengths (ob\<lparr>location := p\<rparr>) = axis_lengths ob"
  by (simp_all add: axis_lengths_def world_axes_def split: option.split)

lemma dimensions_scaled_verts:
  "vsub (bb_max (map (vmul k) vs)) (bb_min (map (vmul k) vs))
     = vmul (abs3 k) (vsub (bb_max vs) (bb_min vs))"
proof -
  obtain a b c where k: "k = (a, b, c)" by (cases k)
  have m: "map fst (map (vmul (a, b, c)) vs) = map ((*) a) (map fst vs)"
          "map (fst \<circ> snd) (map (vmul (a, b, c)) vs) = map ((*) b) (map (fst \<circ> snd) vs)"
          "map (snd \<circ> snd) (map (vmul (a, b, c)) vs) = map ((*) c) (map (snd \<circ> snd) vs)"
    by (induction vs) auto
  show ?thesis
    unfolding k bb_max_def bb_min_def m abs3_def
    by (simp only: vsub.simps vmul.simps extent_scaled prod.case)
qed

lemma apply_scale_verts:
  "verts (apply_transform False False True ob) = map (vmul (scale ob)) (verts ob)"
proof -
  have "vadd (mat_vec (diag k) v) vzero = vmul k v" for k v
    by (cases k; cases v) (simp add: diag_def vzero_def)
  then show ?thesis by (simp add: apply_transform_def)
qed

lemma apply_scale_form:
  "apply_transform False False True ob
     = ob\<lparr>verts := map (vmul (scale ob)) (verts ob), scale := vones\<rparr>"
proof -
  have "vadd (mat_vec (diag k) v) vzero = vmul k v" for k v
    by (cases k; cases v) (simp add: diag_def vzero_def)
  then show ?thesis by (simp add: apply_transform_def)
qed

lemma dimensions_apply_scale:
  "dimensions (apply_transform False False True ob) = dimensions ob"
proof -
  obtain a b c where k: "scale ob = (a, b, c)" by (cases "scale ob")
  obtain n1 n2 n3 where n: "axis_lengths ob = (n1, n2, n3)" by (cases "axis_lengths ob")
  obtain x y z where e: "vsub (bb_max (verts ob)) (bb_min (verts ob)) = (x, y, z)"
    by (cases "vsub (bb_max (verts ob)) (bb_min (verts ob))")
  show ?thesis
    unfolding apply_scale_form
    by (simp add: dimensions_def world_scale_eq dimensions_scaled_verts)
       (simp add: k n e abs3_def vones_def)
qed

lemma dimensions_rescaled:
  "dimensions (ob\<lparr>scale := smul f (scale ob)\<rparr>) = smul \<bar>f\<bar> (dimensions ob)"
proof -
  obtain a b c where k: "scale ob = (a, b, c)" by (cases "scale ob")
  obtain n1 n2 n3 where n: "axis_lengths ob = (n1, n2, n3)" by (cases "axis_lengths ob")
  obtain x y z where e: "vsub (bb_max (verts ob)) (bb_min (verts ob)) = (x, y, z)"
    by (cases "vsub (bb_max (verts ob)) (bb_min (verts ob))")
  show ?thesis
    by (simp add: dimensions_def world_scale_eq k n e abs3_def abs_mult algebra_simps)
qed

lemma max3_smul: "0 \<le> f \<Longrightarrow> max3 (smul f v) = f * max3 v"
  by (cases v) (simp add: max3_def max_mult_distrib_left)

lemma max3_dimensions_nonneg: "0 \<le> max3 (dimensions ob)"
proof -
  have "0 \<le> highest xs - lowest xs" for xs
    by (cases "xs = []") (simp_all add: highest_def lowest_def)
  then show ?thesis
    by (simp add: dimensions_def world_scale_def max3_def bb_max_def bb_min_def le_max_iff_disj
          vnorm_nonneg)
qed

lemma normalize_model_size_result:
  assumes ob: "get_object s obj = Some ob"
    and m: "max3 (dimensions ob) \<noteq> 0" and t: "0 < target_size"
  shows "fst (normalize_model_size obj target_size s) = Inr ()"
    and "\<exists>ob'. get_object (snd (normalize_model_size obj target_size s)) obj = Some ob'
           \<and> dimensions ob' = smul (target_size / max3 (dimensions ob)) (dimensions ob)
           \<and> max3 (dimensions ob') = target_size
           \<and> (selected ob \<and> otype ob = MESH \<longrightarrow> scale ob' = (1, 1, 1)
                \<and> verts ob' = map (vmul (smul (target_size / max3 (dimensions ob)) (scale ob))) (verts ob))"
proof -
  define f where "f = target_size / max3 (dimensions ob)"
  have pos: "0 < max3 (dimensions ob)" using m max3_dimensions_nonneg [of ob] by simp
  then have f: "0 < f" using t by (simp add: f_def)
  let ?ob2 = "ob\<lparr>scale := smul f (scale ob)\<rparr>"
  let ?g = "\<lambda>ob. if selected ob \<and> otype ob = MESH then apply_transform False False True ob else ob"
  have id: "ident (?g x) = ident x" for x by (simp add: apply_transform_def)
  have snd_eq: "snd (normalize_model_size obj target_size s)
      = print (Msg_scale_factor f)
          (print (Msg_new_dims (case get_object (transform_apply False False True
                     ((update_object obj (\<lambda>ob. ob\<lparr>scale := smul f (scale ob)\<rparr>)
                        (print (Msg_original_dims (dimensions ob)) s))\<lparr>active := Some obj\<rparr>)) obj of
                   None \<Rightarrow> vzero | Some ob' \<Rightarrow> dimensions ob'))
             (transform_apply False False True
                ((update_object obj (\<lambda>ob. ob\<lparr>scale := smul f (scale ob)\<rparr>)
                    (print (Msg_original_dims (dimensions ob)) s))\<lparr>active := Some obj\<rparr>)))"
    using ob m by (simp add: normalize_model_size_def Let_def f_def)
  have g2: "get_object (snd (normalize_model_size obj target_size s)) obj = Some (?g ?ob2)"
    unfolding snd_eq
    using ob
    by (simp add: get_object_transform_apply get_object_update)
  have d2: "dimensions (?g ?ob2) = smul f (dimensions ob)"
    using f by (simp add: dimensions_apply_scale dimensions_rescaled)
  have mx: "max3 (dimensions (?g ?ob2)) = target_size"
    unfolding d2 using f pos by (simp add: max3_smul f_def)
  show "fst (normalize_model_size obj target_size s) = Inr ()"
    using ob by (simp add: normalize_model_size_def Let_def)
  have baked: "selected ob \<and> otype ob = MESH \<longrightarrow> scale (?g ?ob2) = (1, 1, 1)
      \<and> verts (?g ?ob2) = map (vmul (smul f (scale ob))) (verts ob)"
    by (simp add: apply_scale_verts) (simp add: apply_transform_def vones_def)
  show "\<exists>ob'. get_object (snd (normalize_model_size obj target_size s)) obj = Some ob'
           \<and> dimensions ob' = smul (target_size / max3 (dimensions ob)) (dimensions ob)
           \<and> max3 (dimensions ob') = target_size
           \<and> (selected ob \<and> otype ob = MESH \<longrightarrow> scale ob' = (1, 1, 1)
                \<and> verts ob' = map (vmul (smul (target_size / max3 (dimensions ob)) (scale ob))) (verts ob))"
    using g2 d2 mx baked unfolding f_def by blast
qed

lemma normalize_model_size_zero:
  assumes "get_object s obj = Some ob" and "max3 (dimensions ob) = 0"
  shows "normalize_model_size obj target_size s
           = (Inr (), s\<lparr>trace := trace s @ [Print (Msg_original_dims (dimensions ob)),
                                           Print Msg_zero_size]\<rparr>)"
  using assms by (simp add: normalize_model_size_def Let_def print_def emit_def)

text \<open>
  Claim C1. For every object of the scene and every target size above zero: when the
  largest extent of the object is not zero, \<open>normalize_model_size\<close> succeeds, every extent
  is multiplied by the same factor, the target over the largest extent, and the largest
  extent is the target afterwards; the scale is baked by the host operator, which acts on
  the selected objects: for a selected mesh, which is what \<open>combine_objects\<close> hands to the
  script's only call, the scale is back at 1 and the vertices carry the old scale times
  the factor. When the largest extent is zero, the procedure prints the dimensions and
  the warning and changes nothing else.
\<close>

theorem normalize_model_size_scales_to_target:
  assumes "get_object s obj = Some ob" and "0 < target_size"
  shows "(max3 (dimensions ob) \<noteq> 0 \<longrightarrow>
            fst (normalize_model_size obj target_size s) = Inr ()
          \<and> (\<exists>ob'. get_object (snd (normalize_model_size obj target_size s)) obj = Some ob'
                \<and> dimensions ob' = smul (target_size / max3 (dimensions ob)) (dimensions ob)
                \<and> max3 (dimensions ob') = target_size
                \<and> (selected ob \<and> otype ob = MESH \<longrightarrow>
                     scale ob' = (1, 1, 1)
                   \<and> verts ob' = map (vmul (smul (target_size / max3 (dimensions ob)) (scale ob)))
                                  (verts ob))))
       \<and> (max3 (dimensions ob) = 0 \<longrightarrow>
            normalize_model_size obj target_size s
              = (Inr (), s\<lparr>trace := trace s @ [Print (Msg_original_dims (dimensions ob)),
                                              Print Msg_zero_size]\<rparr>))"
  using normalize_model_size_result [OF assms(1) _ assms(2)]
    normalize_model_size_zero [OF assms(1)]
  by blast

theorem normalize_model_size_scales_to_target_witness:
  "get_object (mesh_scene True) 0 = Some (demo_object (1, 0, 0) True)
   \<and> max3 (dimensions (demo_object (1, 0, 0) True)) = 4
   \<and> fst (normalize_model_size 0 2 (mesh_scene True)) = Inr ()
   \<and> (\<exists>ob'. get_object (snd (normalize_model_size 0 2 (mesh_scene True))) 0 = Some ob'
         \<and> dimensions ob' = (1 / 2, 1, 2)
         \<and> max3 (dimensions ob') = 2
         \<and> scale ob' = (1, 1, 1)
         \<and> verts ob' = [(0, 0, 0), (1 / 2, 1, 2)])
   \<and> get_object (point_scene True) 0 = Some (new_object ''Point'' MESH 0\<lparr>selected := True\<rparr>)
   \<and> max3 (dimensions (new_object ''Point'' MESH 0\<lparr>selected := True\<rparr>)) = 0
   \<and> normalize_model_size 0 2 (point_scene True)
       = (Inr (), (point_scene True)\<lparr>trace := [Print (Msg_original_dims (0, 0, 0)),
                                               Print Msg_zero_size]\<rparr>)"
proof -
  have g: "get_object (mesh_scene True) 0 = Some (demo_object (1, 0, 0) True)"
    by (simp add: demo_eval)
  have d: "dimensions (demo_object (1, 0, 0) True) = (1, 2, 4)"
    by (simp add: demo_eval)
  have sv: "selected (demo_object (1, 0, 0) True)" "otype (demo_object (1, 0, 0) True) = MESH"
    "scale (demo_object (1, 0, 0) True) = (1, 1, 1)"
    "verts (demo_object (1, 0, 0) True) = [(0, 0, 0), (1, 2, 4)]"
    by (simp_all add: demo_object_def)
  have g0: "get_object (point_scene True) 0 = Some (new_object ''Point'' MESH 0\<lparr>selected := True\<rparr>)"
    by (simp add: point_scene_def demo_scene_def new_object_def get_object_def)
  have d0: "dimensions (new_object ''Point'' MESH 0\<lparr>selected := True\<rparr>) = (0, 0, 0)"
    by (simp add: new_object_def demo_eval)
  have tr: "trace (point_scene True) = []"
    by (simp add: point_scene_def demo_scene_def)
  show ?thesis
    using normalize_model_size_scales_to_target [OF g, of 2]
      normalize_model_size_scales_to_target [OF g0, of 2]
    by (simp add: g g0 d d0 sv tr max3_def)
qed

section \<open>Properties of mesh consolidation\<close>

lemma mat_vec_id [simp]: "mat_vec mat_id v = v"
  by (cases v) (simp add: mat_id_def)

lemma linear_part_identity:
  "rotation ob = mat_id \<Longrightarrow> scale ob = vones \<Longrightarrow> linear_part ob = mat_id"
  by (simp add: linear_part_def mat_mul_def diag_def col_def mat_id_def vones_def)

lemma mat_inv_id [simp]: "mat_inv mat_id = mat_id"
  by (simp add: mat_inv_def mat_id_def det3_def)

lemma vadd_vzero [simp]: "vadd vzero v = v" "vadd v vzero = v" "vsub v vzero = v"
  by (cases v; simp add: vzero_def)+

lemma apply_all_baked: "apply_transform True True True ob = baked ob"
proof -
  have "vadd (mat_vec L v) p = vadd p (mat_vec L v)" for L v p
    by (cases "mat_vec L v"; cases p) simp
  then show ?thesis
    by (simp add: apply_transform_def baked_def matrix_basis_def)
qed

lemma matrix_basis_baked [simp]: "matrix_basis (baked ob) v = v"
  by (simp add: matrix_basis_def baked_def linear_part_identity)

text \<open>
  Baking moves the object's own transform into the vertices, so the vertices stay where
  they are in world space; an object without a parent then has the world frame as its
  local frame.
\<close>

lemma matrix_world_baked: "matrix_world (baked ob) (matrix_basis ob v) = matrix_world ob v"
proof -
  have p: "parent (baked ob) = parent ob" by (simp add: baked_def)
  show ?thesis by (cases "parent ob") (auto simp: matrix_world_def p)
qed

lemma matrix_world_parentless: "parent ob = None \<Longrightarrow> matrix_world ob = matrix_basis ob"
  by (rule ext) (simp add: matrix_world_def)

lemma to_local_baked_parentless: "parent ob = None \<Longrightarrow> to_local (baked ob) w = w"
  by (simp add: to_local_def) (simp add: baked_def linear_part_identity)

lemma baked_baked [simp]: "baked (baked ob) = baked ob"
proof -
  have "map (matrix_basis (baked ob)) xs = xs" for xs
    by (induction xs) simp_all
  then show ?thesis by (simp add: baked_def [of "baked ob"]) (simp add: baked_def)
qed

lemma baked_fields [simp]:
  "ident (baked ob) = ident ob" "otype (baked ob) = otype ob" "selected (baked ob) = selected ob"
  "name (baked ob) = name ob" "verts (baked ob) = map (matrix_basis ob) (verts ob)"
  "location (baked ob) = vzero" "rotation (baked ob) = mat_id" "scale (baked ob) = vones"
  "parent (baked ob) = parent ob"
  by (simp_all add: baked_def)

lemma bake_selected_idem [simp]: "bake_selected (bake_selected ob) = bake_selected ob"
  by (simp add: bake_selected_def)

lemma bake_selected_fields [simp]:
  "ident (bake_selected ob) = ident ob" "otype (bake_selected ob) = otype ob"
  "selected (bake_selected ob) = selected ob"
  by (simp_all add: bake_selected_def)

lemma transform_apply_all:
  "transform_apply True True True s
     = s\<lparr>objects := map bake_selected (objects s),
         trace := trace s @ [Transform_apply True True True]\<rparr>"
  by (simp add: transform_apply_def emit_def bake_selected_def apply_all_baked cong: map_cong)

lemma fold_transform_apply:
  assumes "ids \<noteq> []"
  shows "fold (\<lambda>obj s. transform_apply True True True (s\<lparr>active := Some obj\<rparr>)) ids s
     = s\<lparr>objects := map bake_selected (objects s),
         active := Some (last ids),
         trace := trace s @ replicate (length ids) (Transform_apply True True True)\<rparr>"
  using assms
proof (induction ids arbitrary: s)
  case Nil
  then show ?case by simp
next
  case (Cons i ids)
  show ?case
  proof (cases "ids = []")
    case True
    then show ?thesis by (simp add: transform_apply_all)
  next
    case False
    let ?f = "\<lambda>obj s. transform_apply True True True (s\<lparr>active := Some obj\<rparr>)"
    have "fold ?f (i # ids) s = fold ?f ids (?f i s)" by simp
    also have "\<dots> = (?f i s)\<lparr>objects := map bake_selected (objects (?f i s)),
         active := Some (last ids),
         trace := trace (?f i s) @ replicate (length ids) (Transform_apply True True True)\<rparr>"
      by (rule Cons.IH [OF False])
    also have "\<dots> = s\<lparr>objects := map bake_selected (objects s),
         active := Some (last (i # ids)),
         trace := trace s @ replicate (length (i # ids)) (Transform_apply True True True)\<rparr>"
      using False by (simp add: transform_apply_all comp_def)
    finally show ?thesis .
  qed
qed

lemma fold_select_unchanged:
  assumes "\<And>ob. ob \<in> set (objects s) \<Longrightarrow> ident ob \<in> set ids \<Longrightarrow> selected ob"
  shows "fold (\<lambda>obj. update_object obj (\<lambda>ob. ob\<lparr>selected := True\<rparr>)) ids s = s"
  using assms
proof (induction ids arbitrary: s)
  case Nil
  then show ?case by simp
next
  case (Cons i ids)
  have "map (\<lambda>ob. if ident ob = i then ob\<lparr>selected := True\<rparr> else ob) (objects s) = objects s"
    by (rule map_idI) (use Cons.prems in auto)
  then have "update_object i (\<lambda>ob. ob\<lparr>selected := True\<rparr>) s = s"
    by (simp add: update_object_def)
  then show ?case using Cons by simp
qed

lemma find_distinct_ident:
  assumes "distinct (map ident xs)" "x \<in> set xs"
  shows "find (\<lambda>ob. ident ob = ident x) xs = Some x"
  using assms by (induction xs) (auto simp: image_iff)

lemma same_ident_same_object:
  assumes "distinct (map ident xs)" "x \<in> set xs" "y \<in> set xs" "ident x = ident y"
  shows "x = y"
  using assms by (meson distinct_map inj_onD)

lemma map_filter_map_concat:
  "map f (filter p (map g xs)) = concat (map (\<lambda>x. if p (g x) then [f (g x)] else []) xs)"
  by (induction xs) simp_all

lemma combine_objects_selected:
  assumes dist: "distinct (map ident (objects s))"
    and sel: "\<And>ob. ob \<in> set (objects s) \<Longrightarrow> otype ob = MESH \<Longrightarrow> selected ob"
    and meshes: "filter (\<lambda>ob. otype ob = MESH) (objects s) = m # ms"
  shows "combine_objects s
     = (Some (ident m),
        s\<lparr>objects :=
            concat (map (\<lambda>ob. if otype ob \<noteq> MESH then [ob]
                              else if ident ob = ident m then
                                [(baked m)\<lparr>verts := map (matrix_basis m) (verts m)
                                            @ concat (map (\<lambda>x. map (to_local (baked m) \<circ> matrix_world x)
                                                               (verts x)) ms),
                                          name := ''Combined_Object''\<rparr>]
                              else [])
                      (objects s)),
          active := Some (ident m),
          trace := trace s @ replicate (Suc (length ms)) (Transform_apply True True True) @ [Join]\<rparr>)"
proof -
  let ?O = "objects s"
  let ?a = "ident m"
  let ?ids = "map ident (m # ms)"
  have set_meshes: "set (m # ms) = {x \<in> set ?O. otype x = MESH}"
    using meshes by (metis set_filter)
  have in_meshes: "x \<in> set ?O \<and> otype x = MESH" if "x \<in> set (m # ms)" for x
    using that set_meshes by blast
  have m_in: "m \<in> set ?O" "otype m = MESH"
    using in_meshes [of m] by simp_all
  have m_sel: "selected m" using sel m_in by blast
  have ms_eq: "filter (\<lambda>ob. otype ob = MESH \<and> ident ob \<noteq> ?a) ?O = ms"
  proof -
    have d: "distinct (map ident (m # ms))"
      using dist meshes by (metis distinct_map_filter)
    have "filter (\<lambda>ob. otype ob = MESH \<and> ident ob \<noteq> ?a) ?O
            = filter (\<lambda>ob. ident ob \<noteq> ?a) (filter (\<lambda>ob. otype ob = MESH) ?O)"
      by (simp add: conj_commute)
    also have "\<dots> = filter (\<lambda>ob. ident ob \<noteq> ?a) ms" using meshes by simp
    also have "\<dots> = ms" using d by (intro filter_True) (auto simp: image_iff)
    finally show ?thesis .
  qed
  let ?s1 = "s\<lparr>objects := map bake_selected ?O, active := Some (last ?ids),
               trace := trace s @ replicate (length ?ids) (Transform_apply True True True)\<rparr>"
  have s1: "fold (\<lambda>obj s. transform_apply True True True (s\<lparr>active := Some obj\<rparr>)) ?ids s = ?s1"
    by (rule fold_transform_apply) simp
  have s2: "fold (\<lambda>obj. update_object obj (\<lambda>ob. ob\<lparr>selected := True\<rparr>)) ?ids ?s1 = ?s1"
  proof (rule fold_select_unchanged)
    fix ob assume a: "ob \<in> set (objects ?s1)" "ident ob \<in> set ?ids"
    from a(1) obtain x where x: "x \<in> set ?O" "ob = bake_selected x"
      by auto
    from a(2) obtain y where y0: "y \<in> set (m # ms)" "ident y = ident ob"
      unfolding set_map by force
    have y: "y \<in> set (m # ms)" "ident y = ident x"
      using y0 x(2) by simp_all
    have "y \<in> set ?O" "otype y = MESH"
      using in_meshes [OF y(1)] by simp_all
    then have "x = y" using same_ident_same_object [OF dist x(1) _ ] y(2) by metis
    then show "selected ob" using x \<open>otype y = MESH\<close> sel by simp
  qed
  let ?act = "baked m"
  have get: "get_object (?s1\<lparr>active := Some ?a\<rparr>) ?a = Some ?act"
    using find_distinct_ident [OF dist m_in(1)] m_in m_sel
    by (simp add: get_object_def find_map_same_ident bake_selected_def)
  have others: "filter (\<lambda>ob. selected ob \<and> otype ob = MESH \<and> ident ob \<noteq> ?a) (map bake_selected ?O)
                  = map baked ms"
  proof -
    have "filter (\<lambda>ob. selected ob \<and> otype ob = MESH \<and> ident ob \<noteq> ?a) (map bake_selected ?O)
            = map bake_selected (filter (\<lambda>ob. otype ob = MESH \<and> ident ob \<noteq> ?a) ?O)"
      unfolding filter_map comp_def
      by (rule arg_cong [where f = "map bake_selected"], rule filter_cong) (use sel in auto)
    also have "\<dots> = map bake_selected ms" by (simp only: ms_eq)
    also have "\<dots> = map baked ms"
    proof (rule map_cong [OF refl])
      fix x assume "x \<in> set ms"
      then have "x \<in> set ?O" "otype x = MESH"
        using in_meshes [of x] by simp_all
      then show "bake_selected x = baked x" using sel by (simp add: bake_selected_def)
    qed
    finally show ?thesis .
  qed
  let ?added = "concat (map (\<lambda>x. map (to_local ?act \<circ> matrix_world x) (verts x)) ms)"
  have added: "concat (map (\<lambda>ob. map (to_local ?act \<circ> matrix_world ob) (verts ob)) (map baked ms))
                 = ?added"
    by (simp add: comp_def matrix_world_baked)
  let ?F = "\<lambda>ob. if ident ob = ?a then ob\<lparr>name := ''Combined_Object''\<rparr> else ob"
  let ?G = "\<lambda>ob. if ident ob = ?a then ob\<lparr>verts := verts ob @ ?added\<rparr> else ob"
  let ?K = "\<lambda>ob. \<not> (selected ob \<and> otype ob = MESH \<and> ident ob \<noteq> ?a)"
  let ?T = "\<lambda>ob. if otype ob \<noteq> MESH then [ob]
                 else if ident ob = ?a then
                   [(baked m)\<lparr>verts := map (matrix_basis m) (verts m) @ ?added,
                             name := ''Combined_Object''\<rparr>]
                 else []"
  have objs: "map ?F (map ?G (filter ?K (map bake_selected ?O))) = concat (map ?T ?O)"
  proof -
    have "map ?F (map ?G (filter ?K (map bake_selected ?O)))
            = map (?F \<circ> ?G) (filter ?K (map bake_selected ?O))"
      by simp
    also have "\<dots> = concat (map (\<lambda>x. if ?K (bake_selected x)
                                       then [(?F \<circ> ?G) (bake_selected x)] else []) ?O)"
      by (rule map_filter_map_concat)
    also have "\<dots> = concat (map ?T ?O)"
    proof (rule arg_cong [where f = concat], rule map_cong [OF refl])
      fix ob assume ob: "ob \<in> set ?O"
      show "(if ?K (bake_selected ob) then [(?F \<circ> ?G) (bake_selected ob)] else []) = ?T ob"
      proof (cases "otype ob = MESH")
        case False
        then have "ident ob \<noteq> ?a"
          using same_ident_same_object [OF dist ob m_in(1)] m_in(2) by auto
        then show ?thesis using False by (simp add: bake_selected_def)
      next
        case True
        then have so: "selected ob" using sel ob by blast
        show ?thesis
        proof (cases "ident ob = ?a")
          case same: True
          then have "ob = m" using same_ident_same_object [OF dist ob m_in(1)] by simp
          then show ?thesis using m_in m_sel by (simp add: bake_selected_def)
        next
          case False
          then show ?thesis using True so by simp
        qed
      qed
    qed
    finally show ?thesis .
  qed
  let ?s2 = "?s1\<lparr>active := Some ?a\<rparr>"
  have ids_ne: "(map ident (m # ms) = []) = False" and nth0: "map ident (m # ms) ! 0 = ?a"
    by simp_all
  have c1: "combine_objects s
      = (active (join ?s2),
         case active (join ?s2) of
           None \<Rightarrow> join ?s2
         | Some c \<Rightarrow> update_object c (\<lambda>ob. ob\<lparr>name := ''Combined_Object''\<rparr>) (join ?s2))"
    by (simp only: combine_objects_def Let_def meshes s1 s2 ids_ne nth0 if_False)
  have j: "join ?s2 = ?s2\<lparr>objects := map ?G (filter ?K (map bake_selected ?O)),
                         trace := trace ?s2 @ [Join]\<rparr>"
    using get others added
    by (simp add: join_def emit_def m_in m_sel Let_def)
  have "combine_objects s
      = (Some ?a, ?s2\<lparr>objects := map ?F (map ?G (filter ?K (map bake_selected ?O))),
                        trace := trace ?s2 @ [Join]\<rparr>)"
    unfolding c1 j by (simp add: update_object_def)
  then show ?thesis
    unfolding objs by simp
qed

text \<open>
  Whatever the selection the meshes arrive with, the object that \<open>combine_objects\<close>
  returns is a selected mesh of the scene, named \<^verbatim>\<open>Combined_Object\<close>: the procedure selects
  every mesh before the join, and the join keeps its active object.
\<close>

lemma fold_select:
  "fold (\<lambda>obj. update_object obj (\<lambda>ob. ob\<lparr>selected := True\<rparr>)) ids s
     = s\<lparr>objects := map (\<lambda>ob. if ident ob \<in> set ids then ob\<lparr>selected := True\<rparr> else ob)
                      (objects s)\<rparr>"
proof (induction ids arbitrary: s)
  case Nil
  then show ?case by simp
next
  case (Cons i ids)
  have "fold (\<lambda>obj. update_object obj (\<lambda>ob. ob\<lparr>selected := True\<rparr>)) (i # ids) s
          = fold (\<lambda>obj. update_object obj (\<lambda>ob. ob\<lparr>selected := True\<rparr>)) ids
              (update_object i (\<lambda>ob. ob\<lparr>selected := True\<rparr>) s)"
    by simp
  also have "\<dots> = (update_object i (\<lambda>ob. ob\<lparr>selected := True\<rparr>) s)
      \<lparr>objects := map (\<lambda>ob. if ident ob \<in> set ids then ob\<lparr>selected := True\<rparr> else ob)
                    (objects (update_object i (\<lambda>ob. ob\<lparr>selected := True\<rparr>) s))\<rparr>"
    by (rule Cons.IH)
  also have "\<dots> = s\<lparr>objects := map (\<lambda>ob. if ident ob \<in> set (i # ids) then ob\<lparr>selected := True\<rparr> else ob)
                                  (objects s)\<rparr>"
    by (simp add: update_object_def)
  finally show ?case .
qed

lemma find_filter_implied:
  assumes "\<And>x. p x \<Longrightarrow> k x"
  shows "find p (filter k xs) = find p xs"
  using assms by (induction xs) auto

lemma join_active_selected_mesh:
  assumes a: "active s = Some a" and g: "get_object s a = Some act"
    and m: "otype act = MESH" and sel: "selected act"
  shows "active (join s) = Some a"
    and "\<exists>vs. get_object (join s) a = Some (act\<lparr>verts := vs\<rparr>)"
proof -
  let ?K = "\<lambda>ob. \<not> (selected ob \<and> otype ob = MESH \<and> ident ob \<noteq> a)"
  let ?added = "concat (map (\<lambda>ob. map (to_local act \<circ> matrix_world ob) (verts ob))
                   (filter (\<lambda>ob. selected ob \<and> otype ob = MESH \<and> ident ob \<noteq> a) (objects s)))"
  let ?G = "\<lambda>ob. if ident ob = a then ob\<lparr>verts := verts ob @ ?added\<rparr> else ob"
  have j: "join s = s\<lparr>objects := map ?G (filter ?K (objects s)), trace := trace s @ [Join]\<rparr>"
    using a g m sel by (simp add: join_def emit_def Let_def)
  show "active (join s) = Some a" unfolding j using a by simp
  have idG: "ident (?G ob) = ident ob" for ob by simp
  have o: "objects (join s) = map ?G (filter ?K (objects s))"
    unfolding j by simp
  have "get_object (join s) a
          = map_option ?G (find (\<lambda>ob. ident ob = a) (filter ?K (objects s)))"
    unfolding get_object_def o by (rule find_map_same_ident) simp
  also have "find (\<lambda>ob. ident ob = a) (filter ?K (objects s)) = find (\<lambda>ob. ident ob = a) (objects s)"
    by (rule find_filter_implied) simp
  also have "\<dots> = Some act" using g by (simp add: get_object_def)
  finally have "get_object (join s) a = Some (?G act)" by simp
  moreover have "ident act = a"
    using g by (auto simp: get_object_def find_Some_iff)
  ultimately show "\<exists>vs. get_object (join s) a = Some (act\<lparr>verts := vs\<rparr>)"
    by auto
qed

lemma combine_objects_returns_selected_mesh:
  assumes dist: "distinct (map ident (objects s))"
    and res: "combine_objects s = (Some c, s')"
  shows "\<exists>ob. get_object s' c = Some ob \<and> otype ob = MESH \<and> selected ob
           \<and> name ob = ''Combined_Object''"
proof -
  let ?O = "objects s"
  have ne: "filter (\<lambda>ob. otype ob = MESH) ?O \<noteq> []"
    using res by (auto simp: combine_objects_def)
  then obtain m ms where meshes: "filter (\<lambda>ob. otype ob = MESH) ?O = m # ms"
    by (cases "filter (\<lambda>ob. otype ob = MESH) ?O") auto
  let ?a = "ident m"
  let ?ids = "map ident (m # ms)"
  have "m \<in> set (filter (\<lambda>ob. otype ob = MESH) ?O)"
    using meshes by simp
  then have m_in: "m \<in> set ?O" "otype m = MESH"
    by simp_all
  let ?s1 = "s\<lparr>objects := map bake_selected ?O, active := Some (last ?ids),
               trace := trace s @ replicate (length ?ids) (Transform_apply True True True)\<rparr>"
  have s1: "fold (\<lambda>obj s. transform_apply True True True (s\<lparr>active := Some obj\<rparr>)) ?ids s = ?s1"
    by (rule fold_transform_apply) simp
  let ?H = "\<lambda>ob. if ident ob \<in> set ?ids then ob\<lparr>selected := True\<rparr> else ob"
  let ?s2 = "?s1\<lparr>objects := map ?H (objects ?s1)\<rparr>"
  have s2: "fold (\<lambda>obj. update_object obj (\<lambda>ob. ob\<lparr>selected := True\<rparr>)) ?ids ?s1 = ?s2"
    by (rule fold_select)
  let ?s2a = "?s2\<lparr>active := Some ?a\<rparr>"
  let ?x = "?H (bake_selected m)"
  have idH: "ident (?H (bake_selected ob)) = ident ob" for ob by simp
  have o2: "objects ?s2a = map (\<lambda>ob. ?H (bake_selected ob)) ?O"
    by simp
  have "get_object ?s2a ?a
          = map_option (\<lambda>ob. ?H (bake_selected ob)) (find (\<lambda>ob. ident ob = ?a) ?O)"
    unfolding get_object_def o2 by (rule find_map_same_ident) simp
  then have get: "get_object ?s2a ?a = Some ?x"
    using find_distinct_ident [OF dist m_in(1)] by simp
  have x: "otype ?x = MESH" "selected ?x"
    using m_in by simp_all
  have act: "active ?s2a = Some ?a" by simp
  note j = join_active_selected_mesh [OF act get x]
  have ids_ne: "(map ident (m # ms) = []) = False" and nth0: "map ident (m # ms) ! 0 = ?a"
    by simp_all
  have c1: "combine_objects s
      = (active (join ?s2a),
         case active (join ?s2a) of
           None \<Rightarrow> join ?s2a
         | Some c \<Rightarrow> update_object c (\<lambda>ob. ob\<lparr>name := ''Combined_Object''\<rparr>) (join ?s2a))"
    by (simp only: combine_objects_def Let_def meshes s1 s2 ids_ne nth0 if_False)
  have c2: "combine_objects s
      = (Some ?a, update_object ?a (\<lambda>ob. ob\<lparr>name := ''Combined_Object''\<rparr>) (join ?s2a))"
    unfolding c1 j(1) by (simp only: option.case)
  have "(Some c, s')
      = (Some ?a, update_object ?a (\<lambda>ob. ob\<lparr>name := ''Combined_Object''\<rparr>) (join ?s2a))"
    using res c2 by (rule trans [OF sym])
  then have cs: "c = ?a \<and> s' = update_object ?a (\<lambda>ob. ob\<lparr>name := ''Combined_Object''\<rparr>) (join ?s2a)"
    by (simp only: prod.inject option.inject)
  have c: "c = ?a" and s': "s' = update_object ?a (\<lambda>ob. ob\<lparr>name := ''Combined_Object''\<rparr>) (join ?s2a)"
    using cs by (rule conjunct1, rule conjunct2)
  from j(2) obtain vs where g: "get_object (join ?s2a) ?a = Some (?x\<lparr>verts := vs\<rparr>)"
    by blast
  have "get_object s' c
          = map_option (\<lambda>ob. ob\<lparr>name := ''Combined_Object''\<rparr>) (get_object (join ?s2a) ?a)"
    unfolding c s' by (rule get_object_update) simp
  also have "\<dots> = Some (?x\<lparr>verts := vs, name := ''Combined_Object''\<rparr>)"
    unfolding g by simp
  finally show ?thesis using x by simp
qed

text \<open>
  So at the script's only call of \<open>normalize_model_size\<close>, on the object that
  \<open>combine_objects\<close> returns, the scale is baked into the vertices.
\<close>

lemma normalize_model_size_after_combine:
  assumes dist: "distinct (map ident (objects s))"
    and res: "combine_objects s = (Some c, s1)"
    and t: "0 < target_size"
  shows "\<exists>ob. get_object s1 c = Some ob
           \<and> (max3 (dimensions ob) \<noteq> 0 \<longrightarrow>
                (\<exists>ob'. get_object (snd (normalize_model_size c target_size s1)) c = Some ob'
                   \<and> max3 (dimensions ob') = target_size
                   \<and> scale ob' = (1, 1, 1)
                   \<and> verts ob' = map (vmul (smul (target_size / max3 (dimensions ob)) (scale ob)))
                                  (verts ob)))"
proof -
  from combine_objects_returns_selected_mesh [OF dist res]
  obtain ob where ob: "get_object s1 c = Some ob" "otype ob = MESH" "selected ob"
    by blast
  show ?thesis
    using ob normalize_model_size_result(2) [OF ob(1) _ t] by blast
qed

lemma combine_objects_no_mesh:
  assumes "filter (\<lambda>ob. otype ob = MESH) (objects s) = []"
  shows "combine_objects s = (None, s\<lparr>trace := trace s @ [Print Msg_no_mesh]\<rparr>)"
  using assms by (simp add: combine_objects_def print_def emit_def)

lemma main_no_mesh:
  assumes "get_model_path_from_args script_dir argv s = (Inr (model_path, model_name), s1)"
    and "load_3Dmodel h model_path (print (Msg_render_model model_path) s1) = (Inr (), s2)"
    and "filter (\<lambda>ob. otype ob = MESH) (objects s2) = []"
  shows "main h script_dir argv s
           = (Inr (), s2\<lparr>trace := trace s2 @ [Print Msg_no_mesh, Print Msg_no_combined]\<rparr>)"
  using assms by (simp add: main_def combine_objects_no_mesh print_def emit_def)

text \<open>
  Claim C7. Without a mesh, \<open>combine_objects\<close> reports it and returns \<open>None\<close>
  (\<open>combine_objects_no_mesh\<close>), and the script then runs none of the later steps
  (\<open>main_no_mesh\<close>). With a mesh, the claim is that every input's transform is baked into
  its geometry before the join. The procedure calls the host operator once per mesh with
  that mesh active, but the operator acts on selected objects, and the meshes are selected
  only afterwards. When every mesh arrives selected, the result is the single merged object
  with all transforms baked (\<open>combine_objects_selected\<close>). For the scene with one mesh at
  (1, 0, 0): when it arrives unselected, the
  returned object is named \<^verbatim>\<open>Combined_Object\<close> and still has its location and its
  vertices; when it arrives selected, the location is the origin and the vertices are moved.
\<close>

theorem combine_objects_bakes_only_selected:
  "combine_objects (mesh_scene False)
     = (Some 0,
        (mesh_scene False)
          \<lparr>objects := [(demo_object (1, 0, 0) True)\<lparr>name := ''Combined_Object''\<rparr>],
           active := Some 0,
           trace := [Transform_apply True True True, Join]\<rparr>)
   \<and> combine_objects (mesh_scene True)
     = (Some 0,
        (mesh_scene True)
          \<lparr>objects := [(demo_object (0, 0, 0) True)
                         \<lparr>name := ''Combined_Object'', verts := [(1, 0, 0), (2, 2, 4)]\<rparr>],
           active := Some 0,
           trace := [Transform_apply True True True, Join]\<rparr>)"
  by (simp add: combine_objects_def demo_eval)

text \<open>
  The route of the script for a mesh that a library file delivers as the child of an empty
  of scale 2: import, consolidation, normalization to 2, recentering. The mesh arrives
  unselected and keeps its parent; its largest extent becomes 2 and its scale is baked,
  and the centre of its bounding box ends at (-9/4, -1/2, -1).
\<close>

lemma child_load:
  "load_3Dmodel child_host ''/m/car.blend'' (demo_scene [''/m/car.blend''])
     = (Inr (),
        (demo_scene [''/m/car.blend''])
          \<lparr>objects := [demo_empty\<lparr>ident := 1\<rparr>, (child_object (1, 0, 0) False)\<lparr>ident := 2\<rparr>],
           filepath := ''/tmp/'',
           trace := [Read_factory_settings, Libraries_load ''/m/car.blend'',
                     Print (Msg_import_ok ''/m/car.blend'')]\<rparr>)"
proof -
  have ext: "lower (snd (splitext ''/m/car.blend'')) = ''.blend''"
    by code_simp
  have ex: "path_exists (demo_scene [''/m/car.blend'']) ''/m/car.blend''"
    by (simp add: path_exists_def demo_scene_def)
  show ?thesis
    using ext ex
    by (simp add: load_3Dmodel_def Let_def read_factory_settings_def emit_def print_def
          link_objects_def link_object_def fresh_id_def List.map_filter_def child_host_def
          demo_host_def demo_scene_def)
qed

lemma child_route:
  "(let s0 = snd (load_3Dmodel child_host ''/m/car.blend'' (demo_scene [''/m/car.blend'']));
        s1 = snd (combine_objects s0);
        s2 = snd (normalize_model_size 2 2 s1);
        s3 = snd (move_bbox_to_origin 2 s2)
    in map_option selected (get_object s0 2) = Some False
     \<and> fst (combine_objects s0) = Some 2
     \<and> map_option dimensions (get_object s1 2) = Some (2, 4, 8)
     \<and> map_option dimensions (get_object s2 2) = Some (1 / 2, 1, 2)
     \<and> map_option scale (get_object s2 2) = Some (1, 1, 1)
     \<and> map_option parent (get_object s2 2)
           = Some (Some (((2, 0, 0), (0, 2, 0), (0, 0, 2)), (0, 0, 0)))
     \<and> map_option bbox_center (get_object s2 2) = Some (9 / 4, 1 / 2, 1)
     \<and> map_option bbox_center (get_object s3 2) = Some (- 9 / 4, - 1 / 2, - 1))"
proof -
  have r: "sqrt 4 = 2"
    using real_sqrt_abs2 [of 2] by simp
  show ?thesis
    unfolding child_load
    by (simp add: combine_objects_def normalize_model_size_def move_bbox_to_origin_def
          bbox_center_def bound_box_def corners_def demo_empty_def new_object_def demo_eval r
          real_sqrt_divide)
qed

section \<open>Properties of the asset-generation script\<close>

lemma base_filename_car: "fst (splitext (basename ''assets/example_image/car.png'')) = ''car''"
  by code_simp

lemma render_and_save_ok:
  assumes "outputs key = Some (rep # rest)" and "render_video L rep channel = Some video"
  shows "render_and_save L outputs key channel file calls
           = (Inr (), calls @ [Render_video rep, Mimsave file video 30])"
  using assms by (simp add: render_and_save_def output0_def getitem_def first_item_def)

text \<open>
  Claim C9. When the image opens, the pipeline yields a non-empty list under each of the
  three names and the rendered videos have the channels asked for, the script makes these
  calls and no others: it runs the pipeline once, with seed 1; it renders the first splat
  and the first radiance field and saves their colour videos, renders the first mesh and
  saves its normal video; it builds one interchange object from the first splat and the
  first mesh with simplification 0.95 and texture size 1024 and exports it; it saves the
  first splat as a point cloud. Nothing in the run depends on the rest of the lists.
\<close>

theorem example_script_calls:
  assumes "image_open L ''assets/example_image/car.png'' = Inr img"
    and "run L img 1 ''gaussian'' = Some (g # gs)"
    and "run L img 1 ''radiance_field'' = Some (r # rs)"
    and "run L img 1 ''mesh'' = Some (m # ms)"
    and "render_video L g ''color'' = Some vg"
    and "render_video L r ''color'' = Some vr"
    and "render_video L m ''normal'' = Some vm"
  shows "example_script L
           = (Inr (),
              [From_pretrained ''JeffreyXiang/TRELLIS-image-large'', Cuda,
               Image_open ''assets/example_image/car.png'', Run img 1,
               Render_video g, Mimsave ''car_gs.mp4'' vg 30,
               Render_video r, Mimsave ''car_rf.mp4'' vr 30,
               Render_video m, Mimsave ''car_mesh.mp4'' vm 30,
               To_glb g m (95 / 100) 1024,
               Export (to_glb L g m (95 / 100) 1024) ''car.glb'',
               Save_ply g ''car.ply''])
       \<and> inference_calls (snd (example_script L)) = [(img, 1)]"
proof -
  have run: "example_script L
           = (Inr (),
              [From_pretrained ''JeffreyXiang/TRELLIS-image-large'', Cuda,
               Image_open ''assets/example_image/car.png'', Run img 1,
               Render_video g, Mimsave ''car_gs.mp4'' vg 30,
               Render_video r, Mimsave ''car_rf.mp4'' vr 30,
               Render_video m, Mimsave ''car_mesh.mp4'' vm 30,
               To_glb g m (95 / 100) 1024,
               Export (to_glb L g m (95 / 100) 1024) ''car.glb'',
               Save_ply g ''car.ply''])"
    unfolding example_script_def Let_def base_filename_car
    using assms
    by (simp add: render_and_save_ok output0_def getitem_def first_item_def)
  then show ?thesis by (simp add: inference_calls_def)
qed

theorem example_script_calls_witness:
  "example_script demo_library
     = (Inr (),
        [From_pretrained ''JeffreyXiang/TRELLIS-image-large'', Cuda,
         Image_open ''assets/example_image/car.png'',
         Run ''image:assets/example_image/car.png'' 1,
         Render_video ''g0'', Mimsave ''car_gs.mp4'' ''g0.color'' 30,
         Render_video ''r0'', Mimsave ''car_rf.mp4'' ''r0.color'' 30,
         Render_video ''m0'', Mimsave ''car_mesh.mp4'' ''m0.normal'' 30,
         To_glb ''g0'' ''m0'' (95 / 100) 1024,
         Export ''g0+m0'' ''car.glb'',
         Save_ply ''g0'' ''car.ply''])
   \<and> inference_calls (snd (example_script demo_library))
       = [(''image:assets/example_image/car.png'', 1)]"
  using example_script_calls [of demo_library "''image:assets/example_image/car.png''"
          "''g0''" "[''g1'']" "''r0''" "[''r1'']" "''m0''" "[''m1'']"
          "''g0.color''" "''r0.color''" "''m0.normal''"]
  by (simp add: demo_library_def inference_calls_def)

end
